theory Spec2Isabelle
  imports Complex_Main
begin

section \<open>Values, clips and the media codec\<close>

text \<open>
  The services in \<^verbatim>\<open>Backend/services\<close> receive JSON documents (cut profiles,
  arrangements, transcripts) and drive the moviepy library. A JSON scalar is a
  \<open>pyval\<close>; a JSON object is a map from keys to values; \<open>d.get(k)\<close> is \<open>dget d k\<close>,
  which is \<open>PNone\<close> for a missing key as well as for a stored null. Python floats are
  modelled by real numbers. A service is modelled by what it writes to its output file,
  or by the exception it raises; the name of the output file is left out.
\<close>

datatype pyval = PNone | PBool bool | PInt int | PFloat real | PStr string

type_synonym pydict = "string \<rightharpoonup> pyval"

definition dget :: "pydict \<Rightarrow> string \<Rightarrow> pyval" where
  "dget d k = (case d k of None \<Rightarrow> PNone | Some v \<Rightarrow> v)"

definition dget_default :: "pydict \<Rightarrow> string \<Rightarrow> pyval \<Rightarrow> pyval" where
  "dget_default d k dflt = (case d k of None \<Rightarrow> dflt | Some v \<Rightarrow> v)"

text \<open>Truthiness of a value, as tested by \<^verbatim>\<open>if v:\<close>.\<close>

fun truthy :: "pyval \<Rightarrow> bool" where
  "truthy PNone = False"
| "truthy (PBool b) = b"
| "truthy (PInt i) = (i \<noteq> 0)"
| "truthy (PFloat r) = (r \<noteq> 0)"
| "truthy (PStr s) = (s \<noteq> [])"

text \<open>The number a value denotes, when it denotes one (a bool is an int in Python).\<close>

fun num_of :: "pyval \<Rightarrow> real option" where
  "num_of (PInt i) = Some (real_of_int i)"
| "num_of (PFloat r) = Some r"
| "num_of (PBool b) = Some (if b then 1 else 0)"
| "num_of _ = None"

text \<open>
  Rounding to the nearest integer, ties to even, and with it the rounding of a real
  number to the nearest double (53 significant bits, ties to even), for the doubles of
  the normal range. The quotient of two doubles is the rounded exact quotient.
\<close>

definition round_half_even :: "real \<Rightarrow> int" where
  "round_half_even x =
     (if x - of_int \<lfloor>x\<rfloor> < 1 / 2 then \<lfloor>x\<rfloor>
      else if 1 / 2 < x - of_int \<lfloor>x\<rfloor> then \<lfloor>x\<rfloor> + 1
      else if even \<lfloor>x\<rfloor> then \<lfloor>x\<rfloor> else \<lfloor>x\<rfloor> + 1)"

definition double_round :: "real \<Rightarrow> real" where
  "double_round x =
     (if x = 0 then 0
      else real_of_int (round_half_even (x / 2 powr (real_of_int \<lfloor>log 2 \<bar>x\<bar>\<rfloor> - 52)))
           * 2 powr (real_of_int \<lfloor>log 2 \<bar>x\<bar>\<rfloor> - 52))"

type_synonym path = string

text \<open>
  A clip is the term of library calls that built it: the code never looks inside a
  clip, it only passes clips on to further library calls and finally writes one to the
  output file. \<open>Subclip c s e\<close> is \<^verbatim>\<open>c.subclip(s, e)\<close>, and \<open>Subclip c s PNone\<close> is
  \<^verbatim>\<open>c.subclip(s)\<close>, whose \<^verbatim>\<open>t_end\<close> is \<^verbatim>\<open>None\<close>; \<open>FlImage c\<close> is
  \<^verbatim>\<open>c.fl_image(boost_colors)\<close>; \<open>Concatenate\<close> is \<^verbatim>\<open>concatenate_videoclips\<close> with its
  defaults and \<open>ConcatenateCompose\<close> the call with \<^verbatim>\<open>method="compose"\<close> and a padding.
\<close>

datatype clip =
    VideoFileClip path
  | ClosedFileClip path
  | Subclip clip pyval pyval
  | FlImage clip
  | Speedx clip real
  | Concatenate "clip list"
  | ConcatenateCompose "clip list" real

text \<open>
  \<^verbatim>\<open>clip.close()\<close> closes the reader of a file clip. Every clip built from that file
  clip reads its frames through the same reader, so closing a base clip closes it in
  every sub-clip made of it: \<open>ClosedFileClip p\<close> is the file clip after the call, and
  \<open>close_readers c\<close> is the clip \<open>c\<close> after all the file clips under it were closed.
\<close>

fun close_readers :: "clip \<Rightarrow> clip" where
  "close_readers (VideoFileClip p) = ClosedFileClip p"
| "close_readers (ClosedFileClip p) = ClosedFileClip p"
| "close_readers (Subclip c s e) = Subclip (close_readers c) s e"
| "close_readers (FlImage c) = FlImage (close_readers c)"
| "close_readers (Speedx c factor) = Speedx (close_readers c) factor"
| "close_readers (Concatenate cs) = Concatenate (map close_readers cs)"
| "close_readers (ConcatenateCompose cs padding) = ConcatenateCompose (map close_readers cs) padding"

fun has_closed :: "clip \<Rightarrow> bool" where
  "has_closed (VideoFileClip p) = False"
| "has_closed (ClosedFileClip p) = True"
| "has_closed (Subclip c s e) = has_closed c"
| "has_closed (FlImage c) = has_closed c"
| "has_closed (Speedx c factor) = has_closed c"
| "has_closed (Concatenate cs) = (\<exists>c\<in>set cs. has_closed c)"
| "has_closed (ConcatenateCompose cs padding) = (\<exists>c\<in>set cs. has_closed c)"

datatype error =
    OSError path
  | ValueError string
  | TypeError
  | IndexError
  | AttributeError
  | ArithmeticError

text \<open>
  The library itself is not part of the repository. What the code needs from it is
  whether a path can be opened, the \<^verbatim>\<open>duration\<close> attribute of a clip, and the exception,
  if there is one, with which the library refuses to cut a sub-clip or to join and write
  a list of clips: \<open>library_error cd c\<close> is the exception raised when the clip \<open>c\<close> is
  built or written.
\<close>

record codec =
  can_open :: "path \<Rightarrow> bool"
  duration :: "clip \<Rightarrow> real"
  library_error :: "clip \<Rightarrow> error option"

definition open_clip :: "codec \<Rightarrow> path \<Rightarrow> error + clip" where
  "open_clip cd p = (if can_open cd p then Inr (VideoFileClip p) else Inl (OSError p))"

definition subclip :: "codec \<Rightarrow> clip \<Rightarrow> pyval \<Rightarrow> pyval \<Rightarrow> error + clip" where
  "subclip cd c t_start t_end =
     (case library_error cd (Subclip c t_start t_end) of
        Some e \<Rightarrow> Inl e
      | None \<Rightarrow> Inr (Subclip c t_start t_end))"

definition concatenate_videoclips :: "codec \<Rightarrow> clip list \<Rightarrow> error + clip" where
  "concatenate_videoclips cd clips =
     (case library_error cd (Concatenate clips) of
        Some e \<Rightarrow> Inl e
      | None \<Rightarrow> Inr (Concatenate clips))"

text \<open>
  A reference codec, used to run the services on concrete inputs. It follows the
  bookkeeping of moviepy 1.0.3, in exact arithmetic: a file has the duration the medium
  gives it; \<^verbatim>\<open>subclip(t_start, t_end)\<close> counts a negative time from the end of the clip,
  takes the end of the clip for a missing \<^verbatim>\<open>t_end\<close> and sets the duration to
  \<open>t_end - t_start\<close>; \<^verbatim>\<open>speedx\<close> divides the duration by the factor;
  \<^verbatim>\<open>concatenate_videoclips\<close> starts clip \<open>k\<close> at \<open>max 0 (d\<^sub>0 + \<dots> + d\<^sub>k\<^sub>-\<^sub>1 + k * padding)\<close> and
  reports the last of these times, the one after all \<open>n\<close> clips, as the duration of the
  result.
\<close>

fun clip_duration :: "(path \<rightharpoonup> real) \<Rightarrow> clip \<Rightarrow> real" where
  "clip_duration media (VideoFileClip p) = (case media p of None \<Rightarrow> 0 | Some d \<Rightarrow> d)"
| "clip_duration media (ClosedFileClip p) = (case media p of None \<Rightarrow> 0 | Some d \<Rightarrow> d)"
| "clip_duration media (Subclip c s e) =
     (let d = clip_duration media c;
          t_start = (case num_of s of None \<Rightarrow> 0 | Some x \<Rightarrow> if x < 0 then d + x else x);
          t_end = (case num_of e of None \<Rightarrow> d | Some y \<Rightarrow> if y < 0 then d + y else y)
      in t_end - t_start)"
| "clip_duration media (FlImage c) = clip_duration media c"
| "clip_duration media (Speedx c factor) = clip_duration media c / factor"
| "clip_duration media (Concatenate cs) =
     max 0 (sum_list (map (clip_duration media) cs))"
| "clip_duration media (ConcatenateCompose cs padding) =
     max 0 (sum_list (map (clip_duration media) cs) + padding * real (length cs))"

text \<open>
  What the reference codec refuses. \<^verbatim>\<open>subclip\<close> cannot compare a start time that is
  \<^verbatim>\<open>None\<close> with 0, and refuses a start time after the end of the clip. (The library also
  reads a time written as a string; the reference codec does not and refuses it.) The
  plain \<^verbatim>\<open>concatenate_videoclips\<close> needs at least one clip; it takes the frame at time 0
  from the last clip that starts at time 0, which is beyond the list when the durations
  add up to nothing, and which cannot be read when the readers were closed.
\<close>

fun is_time_string :: "pyval \<Rightarrow> bool" where
  "is_time_string (PStr s) = True"
| "is_time_string _ = False"

definition subclip_error :: "(path \<rightharpoonup> real) \<Rightarrow> clip \<Rightarrow> pyval \<Rightarrow> pyval \<Rightarrow> error option" where
  "subclip_error media c t_start t_end =
     (if is_time_string t_start \<or> is_time_string t_end then Some (ValueError ''time string'')
      else (case num_of t_start of
              None \<Rightarrow> Some TypeError
            | Some x \<Rightarrow>
                if clip_duration media c < (if x < 0 then clip_duration media c + x else x)
                then Some (ValueError ''t_start should be smaller than the clip's duration'')
                else None))"

definition concatenate_error :: "(path \<rightharpoonup> real) \<Rightarrow> clip list \<Rightarrow> error option" where
  "concatenate_error media clips =
     (if clips = [] then Some (ValueError ''max() arg is an empty sequence'')
      else if sum_list (map (clip_duration media) clips) \<le> 0 then Some IndexError
      else if (\<exists>c\<in>set clips. has_closed c) then Some AttributeError
      else None)"

fun moviepy_error :: "(path \<rightharpoonup> real) \<Rightarrow> clip \<Rightarrow> error option" where
  "moviepy_error media (Subclip c t_start t_end) = subclip_error media c t_start t_end"
| "moviepy_error media (Concatenate clips) = concatenate_error media clips"
| "moviepy_error media _ = None"

definition moviepy :: "(path \<rightharpoonup> real) \<Rightarrow> codec" where
  "moviepy media =
     \<lparr>can_open = (\<lambda>p. media p \<noteq> None), duration = clip_duration media,
      library_error = moviepy_error media\<rparr>"

section \<open>Cutting a video with a cut profile\<close>

text \<open>
  \<^verbatim>\<open>cut_video_with_profile\<close>: the loop over \<^verbatim>\<open>cut_profile.get("segments", [])\<close> asks
  the library for one sub-clip per segment whose two time fields are both not
  \<^verbatim>\<open>None\<close>, and stops at the first one the library refuses. The sub-clips are then
  joined and written, unless there is none.
\<close>

type_synonym pyobject = "string \<rightharpoonup> pydict list"

definition profile_segments :: "pyobject \<Rightarrow> pydict list" where
  "profile_segments cut_profile = (case cut_profile ''segments'' of None \<Rightarrow> [] | Some l \<Rightarrow> l)"

fun cut_segments :: "codec \<Rightarrow> clip \<Rightarrow> pydict list \<Rightarrow> clip list \<Rightarrow> error + clip list" where
  "cut_segments cd video [] segments = Inr segments"
| "cut_segments cd video (segment # rest) segments =
     (if dget segment ''start_time'' \<noteq> PNone \<and> dget segment ''end_time'' \<noteq> PNone
      then (case subclip cd video (dget segment ''start_time'') (dget segment ''end_time'') of
              Inl e \<Rightarrow> Inl e
            | Inr clip \<Rightarrow> cut_segments cd video rest (segments @ [clip]))
      else cut_segments cd video rest segments)"

definition cut_video_with_profile :: "codec \<Rightarrow> path \<Rightarrow> pyobject \<Rightarrow> error + clip" where
  "cut_video_with_profile cd video_path cut_profile =
     (case open_clip cd video_path of
        Inl e \<Rightarrow> Inl e
      | Inr video \<Rightarrow>
          (case cut_segments cd video (profile_segments cut_profile) [] of
             Inl e \<Rightarrow> Inl e
           | Inr segments \<Rightarrow>
               if segments \<noteq> [] then concatenate_videoclips cd segments
               else Inl (ValueError ''No valid segments found in cut profile'')))"

text \<open>The validity condition of the specification: \<open>0 \<le> start_time < end_time \<le> source_duration\<close>.\<close>

definition valid_segment :: "real \<Rightarrow> pydict \<Rightarrow> bool" where
  "valid_segment source_duration segment =
     (case (num_of (dget segment ''start_time''), num_of (dget segment ''end_time'')) of
        (Some s, Some e) \<Rightarrow> 0 \<le> s \<and> s < e \<and> e \<le> source_duration
      | _ \<Rightarrow> False)"

definition has_times :: "pydict \<Rightarrow> bool" where
  "has_times segment = (dget segment ''start_time'' \<noteq> PNone \<and> dget segment ''end_time'' \<noteq> PNone)"

definition segment_clip :: "clip \<Rightarrow> pydict \<Rightarrow> clip" where
  "segment_clip video segment = Subclip video (dget segment ''start_time'') (dget segment ''end_time'')"

text \<open>The exception of the first clip of a list that the library refuses.\<close>

fun first_error :: "codec \<Rightarrow> clip list \<Rightarrow> error option" where
  "first_error cd [] = None"
| "first_error cd (c # cs) =
     (case library_error cd c of Some e \<Rightarrow> Some e | None \<Rightarrow> first_error cd cs)"

lemma cut_segments_filter:
  "cut_segments cd video segs acc =
     (case first_error cd (map (segment_clip video) (filter has_times segs)) of
        Some e \<Rightarrow> Inl e
      | None \<Rightarrow> Inr (acc @ map (segment_clip video) (filter has_times segs)))"
  by (induction segs arbitrary: acc)
     (simp_all add: has_times_def segment_clip_def subclip_def split: option.split)

text \<open>
  C1, as the code has it. The sub-clips the call asks for are those of the segments
  with both time fields present (not null), whatever their values, in the input order:
  no segment is compared with the other bound or with the duration of the source, and
  none is dropped for that. The call fails when the video cannot be opened, when the
  library refuses one of these sub-clips or their concatenation, and with the
  \<^verbatim>\<open>ValueError\<close> of the code when no segment has both fields; otherwise the concatenation
  of all of them is written.
\<close>

theorem cut_video_with_profile_keeps_segments_with_times:
  "cut_video_with_profile cd video_path cut_profile =
     (if can_open cd video_path
      then (case first_error cd (map (segment_clip (VideoFileClip video_path))
                     (filter has_times (profile_segments cut_profile))) of
              Some e \<Rightarrow> Inl e
            | None \<Rightarrow>
                if filter has_times (profile_segments cut_profile) = []
                then Inl (ValueError ''No valid segments found in cut profile'')
                else concatenate_videoclips cd
                       (map (segment_clip (VideoFileClip video_path))
                          (filter has_times (profile_segments cut_profile))))
      else Inl (OSError video_path))"
  by (simp add: cut_video_with_profile_def open_clip_def cut_segments_filter split: option.split)

lemma open_clip_moviepy:
  "open_clip (moviepy media) p =
     (case media p of None \<Rightarrow> Inl (OSError p) | Some d \<Rightarrow> Inr (VideoFileClip p))"
  by (simp add: open_clip_def moviepy_def split: option.split)

lemma duration_moviepy: "duration (moviepy media) = clip_duration media"
  by (simp add: moviepy_def)

lemma library_error_moviepy: "library_error (moviepy media) = moviepy_error media"
  by (simp add: moviepy_def)

text \<open>
  C1 as the specification states it fails: on a 10 second source, the profile with the
  segment from 5 to 3 (start after end) followed by the segment from 1 to 4. The first
  segment is not valid, and yet both are in the timeline that is written, in the order
  given.
\<close>

theorem cut_video_with_profile_keeps_invalid_segment:
  "duration (moviepy [''video.mp4'' \<mapsto> 10]) (VideoFileClip ''video.mp4'') = 10 \<and>
   \<not> valid_segment 10 [''start_time'' \<mapsto> PInt 5, ''end_time'' \<mapsto> PInt 3] \<and>
   cut_video_with_profile (moviepy [''video.mp4'' \<mapsto> 10]) ''video.mp4''
       [''segments'' \<mapsto> [[''start_time'' \<mapsto> PInt 5, ''end_time'' \<mapsto> PInt 3],
                        [''start_time'' \<mapsto> PInt 1, ''end_time'' \<mapsto> PInt 4]]]
     = Inr (Concatenate [Subclip (VideoFileClip ''video.mp4'') (PInt 5) (PInt 3),
                         Subclip (VideoFileClip ''video.mp4'') (PInt 1) (PInt 4)])"
  by (simp add: duration_moviepy library_error_moviepy valid_segment_def dget_def
      cut_video_with_profile_def open_clip_moviepy profile_segments_def subclip_def
      subclip_error_def concatenate_videoclips_def concatenate_error_def Let_def)

text \<open>
  Alone, the two kinds of segment the specification wants dropped make the whole call
  fail in the library: a segment that starts after the end of the source is refused by
  \<^verbatim>\<open>subclip\<close>, and a single segment from 5 to 3 has a negative duration, which the
  concatenation cannot show.
\<close>

lemma cut_video_with_profile_start_past_end:
  "cut_video_with_profile (moviepy [''video.mp4'' \<mapsto> 10]) ''video.mp4''
       [''segments'' \<mapsto> [[''start_time'' \<mapsto> PInt 12, ''end_time'' \<mapsto> PInt 15]]]
     = Inl (ValueError ''t_start should be smaller than the clip's duration'')"
  by (simp add: library_error_moviepy dget_def cut_video_with_profile_def open_clip_moviepy
      profile_segments_def subclip_def subclip_error_def Let_def)

lemma cut_video_with_profile_lone_negative:
  "cut_video_with_profile (moviepy [''video.mp4'' \<mapsto> 10]) ''video.mp4''
       [''segments'' \<mapsto> [[''start_time'' \<mapsto> PInt 5, ''end_time'' \<mapsto> PInt 3]]]
     = Inl IndexError"
  by (simp add: library_error_moviepy dget_def cut_video_with_profile_def open_clip_moviepy
      profile_segments_def subclip_def subclip_error_def concatenate_videoclips_def
      concatenate_error_def Let_def)

section \<open>The montage\<close>

text \<open>
  \<^verbatim>\<open>create_satisfy_montage\<close>. The intro is opened first, then every clip in turn; each
  clip but the intro gets the colour boost and the 1.25 speed-up. The clips are joined
  with \<^verbatim>\<open>method="compose"\<close> and a negative padding. When the result is shorter than
  the target, it is repeated \<open>int(np.ceil(target_duration / current_duration))\<close> times,
  joined the same way and cut to \<open>[0, target_duration]\<close>. The quotient is a quotient of
  doubles; there is no integer for it when the duration is zero or when the quotient
  is beyond the largest double. \<open>target_duration\<close> is an integer, as the endpoint
  declares it (and, below \<open>2\<^sup>5\<^sup>3\<close>, a double as it stands). The library calls of the montage (the effects, the compose join, the cut
  from 0) do not raise.
\<close>

fun load_clips :: "codec \<Rightarrow> path list \<Rightarrow> clip list \<Rightarrow> error + clip list" where
  "load_clips cd [] clips = Inr clips"
| "load_clips cd (p # paths) clips =
     (case open_clip cd p of
        Inl e \<Rightarrow> Inl e
      | Inr clip \<Rightarrow> load_clips cd paths (clips @ [Speedx (FlImage clip) (5 / 4)]))"

definition repetition_count :: "int \<Rightarrow> real \<Rightarrow> error + int" where
  "repetition_count target_duration current_duration =
     (if current_duration = 0 then Inl ArithmeticError
      else if 2 ^ 1024 \<le> \<bar>double_round (real_of_int target_duration / current_duration)\<bar>
      then Inl ArithmeticError
      else Inr \<lceil>double_round (real_of_int target_duration / current_duration)\<rceil>)"

definition extend_montage :: "codec \<Rightarrow> clip \<Rightarrow> int \<Rightarrow> real \<Rightarrow> error + clip" where
  "extend_montage cd final_clip target_duration crossfade_duration =
     (let current_duration = duration cd final_clip
      in if current_duration < real_of_int target_duration
         then (case repetition_count target_duration current_duration of
                 Inl e \<Rightarrow> Inl e
               | Inr repetitions \<Rightarrow>
                   (let extended_clips = replicate (nat repetitions) final_clip
                    in Inr (Subclip (ConcatenateCompose extended_clips (- crossfade_duration))
                              (PInt 0) (PInt target_duration))))
         else Inr final_clip)"

definition create_satisfy_montage ::
  "codec \<Rightarrow> path \<Rightarrow> path list \<Rightarrow> int \<Rightarrow> real \<Rightarrow> error + clip" where
  "create_satisfy_montage cd intro_path clip_paths target_duration crossfade_duration =
     (case open_clip cd intro_path of
        Inl e \<Rightarrow> Inl e
      | Inr intro_clip \<Rightarrow>
          (case load_clips cd clip_paths [intro_clip] of
             Inl e \<Rightarrow> Inl e
           | Inr clips \<Rightarrow>
               extend_montage cd (ConcatenateCompose clips (- crossfade_duration))
                 target_duration crossfade_duration))"

text \<open>The clips of the montage when every file opens: the intro, then the processed clips.\<close>

definition montage_clips :: "path \<Rightarrow> path list \<Rightarrow> clip list" where
  "montage_clips intro_path clip_paths =
     VideoFileClip intro_path # map (\<lambda>p. Speedx (FlImage (VideoFileClip p)) (5 / 4)) clip_paths"

definition concatenated :: "path \<Rightarrow> path list \<Rightarrow> real \<Rightarrow> clip" where
  "concatenated intro_path clip_paths crossfade_duration =
     ConcatenateCompose (montage_clips intro_path clip_paths) (- crossfade_duration)"

lemma load_clips_find:
  "load_clips cd paths clips =
     (case find (\<lambda>p. \<not> can_open cd p) paths of
        Some p \<Rightarrow> Inl (OSError p)
      | None \<Rightarrow> Inr (clips @ map (\<lambda>p. Speedx (FlImage (VideoFileClip p)) (5 / 4)) paths))"
  by (induction paths arbitrary: clips) (simp_all add: open_clip_def split: option.split)

lemma create_satisfy_montage_find:
  "create_satisfy_montage cd intro_path clip_paths target_duration crossfade_duration =
     (case find (\<lambda>p. \<not> can_open cd p) (intro_path # clip_paths) of
        Some p \<Rightarrow> Inl (OSError p)
      | None \<Rightarrow> extend_montage cd (concatenated intro_path clip_paths crossfade_duration)
                 target_duration crossfade_duration)"
  by (simp add: create_satisfy_montage_def open_clip_def load_clips_find concatenated_def
      montage_clips_def split: option.split)

lemma not_can_open_moviepy: "(\<not> can_open (moviepy media) p) = (media p = None)"
  by (simp add: moviepy_def)

lemma can_open_moviepy: "can_open (moviepy media) p = (media p \<noteq> None)"
  by (simp add: moviepy_def)

lemma clip_duration_compose_nonneg: "0 \<le> clip_duration media (ConcatenateCompose cs padding)"
  by simp

text \<open>
  C3, as the code has it. The function has no check of \<open>target_duration\<close>. With
  \<open>target_duration \<le> 0\<close> the files are opened as for any other target, the first one
  that does not open fails the call with the codec's error, and when all open the
  concatenated montage is written as it is: its duration is not negative, so it is
  never below the target and nothing is extended or cut.
\<close>

theorem create_satisfy_montage_nonpositive_target:
  assumes "target_duration \<le> 0"
  shows "create_satisfy_montage (moviepy media) intro_path clip_paths target_duration
           crossfade_duration =
         (case find (\<lambda>p. media p = None) (intro_path # clip_paths) of
            Some p \<Rightarrow> Inl (OSError p)
          | None \<Rightarrow> Inr (concatenated intro_path clip_paths crossfade_duration))"
proof -
  have "0 \<le> clip_duration media (concatenated intro_path clip_paths crossfade_duration)"
    unfolding concatenated_def by (rule clip_duration_compose_nonneg)
  moreover have "real_of_int target_duration \<le> 0" using assms by simp
  ultimately have
    "\<not> clip_duration media (concatenated intro_path clip_paths crossfade_duration)
        < real_of_int target_duration"
    by linarith
  then have "extend_montage (moviepy media)
       (concatenated intro_path clip_paths crossfade_duration) target_duration crossfade_duration
     = Inr (concatenated intro_path clip_paths crossfade_duration)"
    by (simp add: extend_montage_def duration_moviepy Let_def)
  then show ?thesis
    by (simp add: create_satisfy_montage_find not_can_open_moviepy del: find.simps
        split: option.split)
qed

theorem create_satisfy_montage_nonpositive_target_witness:
  "(-5::int) \<le> 0 \<and>
   create_satisfy_montage (moviepy [''intro.mp4'' \<mapsto> 4, ''a.mp4'' \<mapsto> 10])
       ''intro.mp4'' [''a.mp4''] (-5) (1 / 2)
     = Inr (ConcatenateCompose
              [VideoFileClip ''intro.mp4'', Speedx (FlImage (VideoFileClip ''a.mp4'')) (5 / 4)]
              (- (1 / 2)))"
  using create_satisfy_montage_nonpositive_target
    [of "-5" "[''intro.mp4'' \<mapsto> 4, ''a.mp4'' \<mapsto> 10]" "''intro.mp4''" "[''a.mp4'']" "1 / 2"]
  by (simp add: concatenated_def montage_clips_def)

text \<open>
  C3 as the specification states it fails: with \<open>target_duration = 0\<close> the call does not
  fail at all. The intro is opened and the montage of the single clip is written.
\<close>

theorem create_satisfy_montage_zero_target_succeeds:
  "create_satisfy_montage (moviepy [''intro.mp4'' \<mapsto> 10]) ''intro.mp4'' [] 0 (1 / 2)
     = Inr (ConcatenateCompose [VideoFileClip ''intro.mp4''] (- (1 / 2)))"
  by (simp add: create_satisfy_montage_def open_clip_moviepy duration_moviepy
      extend_montage_def Let_def)

text \<open>
  C9. When every file opens and the concatenated montage is at least as long as the
  target, the clip that is written is the concatenated montage itself: not repeated,
  not cut, and so of the concatenated duration.
\<close>

theorem create_satisfy_montage_long_enough:
  assumes "can_open cd intro_path" and "list_all (can_open cd) clip_paths"
    and "real_of_int target_duration
           \<le> duration cd (concatenated intro_path clip_paths crossfade_duration)"
  shows "create_satisfy_montage cd intro_path clip_paths target_duration crossfade_duration
           = Inr (concatenated intro_path clip_paths crossfade_duration)"
proof -
  from assms(1,2) have "find (\<lambda>p. \<not> can_open cd p) (intro_path # clip_paths) = None"
    by (simp add: find_None_iff list_all_iff)
  then show ?thesis using assms(3)
    by (simp add: create_satisfy_montage_find extend_montage_def Let_def)
qed

theorem create_satisfy_montage_long_enough_witness:
  "can_open (moviepy [''intro.mp4'' \<mapsto> 40, ''a.mp4'' \<mapsto> 50]) ''intro.mp4'' \<and>
   list_all (can_open (moviepy [''intro.mp4'' \<mapsto> 40, ''a.mp4'' \<mapsto> 50])) [''a.mp4''] \<and>
   duration (moviepy [''intro.mp4'' \<mapsto> 40, ''a.mp4'' \<mapsto> 50])
     (concatenated ''intro.mp4'' [''a.mp4''] (1 / 2)) = 79 \<and>
   create_satisfy_montage (moviepy [''intro.mp4'' \<mapsto> 40, ''a.mp4'' \<mapsto> 50])
       ''intro.mp4'' [''a.mp4''] 60 (1 / 2)
     = Inr (ConcatenateCompose
              [VideoFileClip ''intro.mp4'', Speedx (FlImage (VideoFileClip ''a.mp4'')) (5 / 4)]
              (- (1 / 2)))"
proof -
  let ?cd = "moviepy [''intro.mp4'' \<mapsto> 40, ''a.mp4'' \<mapsto> 50]"
  have o1: "can_open ?cd ''intro.mp4''" by (simp add: moviepy_def)
  have o2: "list_all (can_open ?cd) [''a.mp4'']" by (simp add: moviepy_def)
  have d: "duration ?cd (concatenated ''intro.mp4'' [''a.mp4''] (1 / 2)) = 79"
    by (simp add: moviepy_def concatenated_def montage_clips_def)
  have le: "real_of_int 60 \<le> duration ?cd (concatenated ''intro.mp4'' [''a.mp4''] (1 / 2))"
    by (simp add: d)
  from create_satisfy_montage_long_enough [OF o1 o2 le] o1 o2 d
  show ?thesis by (simp add: concatenated_def montage_clips_def)
qed

text \<open>
  The quotient of doubles is not the exact quotient: with an intro of 0.62 s (the
  double nearest to it) and a crossfade of 0.5 s the montage lasts
  \<open>1080863910568919 / 2\<^sup>5\<^sup>3\<close> s, a little less than 0.12 s; for a target of 3 s the exact
  quotient is a little more than 25, its double is 25, and the montage is repeated 25
  times.
\<close>

lemma floor_log2:
  fixes x :: real
  assumes "2 ^ k \<le> x" and "x < 2 ^ Suc k"
  shows "\<lfloor>log 2 x\<rfloor> = int k"
proof -
  have "(0::real) < 2 ^ k" by simp
  with assms(1) have pos: "0 < x" by linarith
  have "2 powr real k \<le> x" using assms(1) by (simp add: powr_realpow)
  then have a: "real k \<le> log 2 x" using pos by (simp add: le_log_iff)
  have "x < 2 powr (real k + 1)"
    using assms(2) by (simp add: powr_add powr_realpow)
  then have b: "log 2 x < real k + 1" using pos by (simp add: log_less_iff)
  from a b show ?thesis by (simp add: floor_eq_iff)
qed

lemma two_powr_exponent:
  assumes "k \<le> 52"
  shows "2 powr (real_of_int (int k) - 52) = 1 / 2 ^ (52 - k)"
proof -
  have "real_of_int (int k) - 52 = - real (52 - k)" using assms by simp
  then have "2 powr (real_of_int (int k) - 52) = 2 powr (- real (52 - k))" by (simp only:)
  also have "\<dots> = inverse (2 powr real (52 - k))" by (rule powr_minus)
  also have "2 powr real (52 - k) = 2 ^ (52 - k)" by (rule powr_realpow) simp
  finally show ?thesis by (simp only: inverse_eq_divide)
qed

lemma double_round_scaled:
  assumes "2 ^ k \<le> x" and "x < 2 ^ Suc k" and "k \<le> 52"
  shows "double_round x = real_of_int (round_half_even (x * 2 ^ (52 - k))) / 2 ^ (52 - k)"
proof -
  have "(0::real) < 2 ^ k" by simp
  with assms(1) have pos: "0 < x" by linarith
  then have ax: "\<bar>x\<bar> = x" by simp
  have e: "\<lfloor>log 2 \<bar>x\<bar>\<rfloor> = int k" unfolding ax by (rule floor_log2 [OF assms(1,2)])
  note p = two_powr_exponent [OF assms(3)]
  from pos have nz: "x \<noteq> 0" by simp
  have "double_round x
      = real_of_int (round_half_even (x / (1 / 2 ^ (52 - k)))) * (1 / 2 ^ (52 - k))"
    unfolding double_round_def e p using nz by (simp only: if_False)
  also have "x / (1 / 2 ^ (52 - k)) = x * 2 ^ (52 - k)" by simp
  finally show ?thesis by simp
qed

lemma double_round_five_halves: "double_round (5 / 2) = 5 / 2"
proof -
  have lo: "2 ^ 1 \<le> (5 / 2 :: real)" and hi: "(5 / 2 :: real) < 2 ^ Suc 1" by simp_all
  have s: "(5 / 2 :: real) * 2 ^ (52 - 1) = 5629499534213120" by simp
  have r: "round_half_even (5 / 2 * 2 ^ (52 - 1)) = 5629499534213120"
    unfolding s by (simp add: round_half_even_def)
  have "double_round (5 / 2) = real_of_int 5629499534213120 / 2 ^ (52 - 1)"
    using double_round_scaled [OF lo hi] r by simp
  also have "\<dots> = 5 / 2" by simp
  finally show ?thesis .
qed

lemma repetition_count_reference:
  "repetition_count 3 (1080863910568919 / 2 ^ 53) = Inr 25 \<and>
   \<lceil>real_of_int 3 / (1080863910568919 / 2 ^ 53)\<rceil> = (26::int)"
proof -
  let ?q = "real_of_int 3 / (1080863910568919 / 2 ^ 53)"
  have q: "?q = 27021597764222976 / 1080863910568919" by simp
  have lo: "2 ^ 4 \<le> ?q" and hi: "?q < 2 ^ Suc 4" unfolding q by simp_all
  have s: "?q * 2 ^ (52 - 4) = 7605903601369376408980219232256 / 1080863910568919"
    unfolding q by simp
  have r: "round_half_even (?q * 2 ^ (52 - 4)) = 7036874417766400"
    unfolding s by (simp add: round_half_even_def)
  have "double_round ?q = real_of_int 7036874417766400 / 2 ^ (52 - 4)"
    using double_round_scaled [OF lo hi] r by simp
  also have "\<dots> = 25" by simp
  finally have d: "double_round ?q = 25" .
  have c: "\<lceil>?q\<rceil> = (26::int)" unfolding q by simp
  have nz: "(1080863910568919 / 2 ^ 53 :: real) \<noteq> 0" by simp
  have fin: "\<not> (2::real) ^ 1024 \<le> \<bar>25\<bar>" by simp
  have "repetition_count 3 (1080863910568919 / 2 ^ 53) = Inr 25"
    unfolding repetition_count_def d using nz fin by simp
  with c show ?thesis by blast
qed

text \<open>
  Under the precondition of the specification, a crossfade shorter than every clip of
  the montage, the concatenated montage has a positive duration.
\<close>

lemma sum_list_shift:
  fixes f :: "'a \<Rightarrow> real"
  shows "sum_list (map f cs) + p * real (length cs) = sum_list (map (\<lambda>c. f c + p) cs)"
  by (induction cs) (simp_all add: algebra_simps)

lemma sum_list_positive:
  fixes g :: "'a \<Rightarrow> real"
  shows "cs \<noteq> [] \<Longrightarrow> \<forall>c\<in>set cs. 0 < g c \<Longrightarrow> 0 < sum_list (map g cs)"
proof (induction cs)
  case Nil
  then show ?case by simp
next
  case (Cons c cs)
  show ?case
  proof (cases "cs = []")
    case True
    with Cons.prems show ?thesis by simp
  next
    case False
    with Cons have "0 < sum_list (map g cs)" by simp
    moreover from Cons.prems have "0 < g c" by simp
    ultimately show ?thesis by simp
  qed
qed

lemma valid_crossfade_positive:
  assumes "\<forall>c\<in>set (montage_clips intro_path clip_paths).
             crossfade_duration < clip_duration media c"
  shows "0 < clip_duration media (concatenated intro_path clip_paths crossfade_duration)"
proof -
  let ?cs = "montage_clips intro_path clip_paths"
  have ne: "?cs \<noteq> []" by (simp add: montage_clips_def)
  have "0 < sum_list (map (\<lambda>c. clip_duration media c + - crossfade_duration) ?cs)"
    using assms by (intro sum_list_positive [OF ne]) simp
  then have "0 < sum_list (map (clip_duration media) ?cs)
      + (- crossfade_duration) * real (length ?cs)"
    by (simp only: sum_list_shift)
  then show ?thesis by (simp add: concatenated_def)
qed

text \<open>
  C4. When every file opens and the concatenated montage has a positive duration below
  the target (positive, as it is under the crossfade precondition of the
  specification), the clip that is written is the concatenated montage repeated
  \<open>int(ceil(target_duration / current_duration))\<close> times, the quotient being the
  quotient of doubles of the code (a finite double), joined with the same negative
  padding and cut to \<open>[0, target_duration]\<close>. With a library whose
  \<^verbatim>\<open>subclip(0, t)\<close> reports the duration \<open>t\<close>, the duration of what is written is
  \<open>target_duration\<close>.
\<close>

theorem create_satisfy_montage_extends_to_target:
  assumes "can_open cd intro_path" and "list_all (can_open cd) clip_paths"
    and "0 < duration cd (concatenated intro_path clip_paths crossfade_duration)"
    and "duration cd (concatenated intro_path clip_paths crossfade_duration)
           < real_of_int target_duration"
    and "\<bar>double_round (real_of_int target_duration
             / duration cd (concatenated intro_path clip_paths crossfade_duration))\<bar> < 2 ^ 1024"
    and "\<forall>c. duration cd (Subclip c (PInt 0) (PInt target_duration))
             = real_of_int target_duration"
  shows "create_satisfy_montage cd intro_path clip_paths target_duration crossfade_duration
           = Inr (Subclip
                    (ConcatenateCompose
                       (replicate
                          (nat \<lceil>double_round (real_of_int target_duration
                             / duration cd (concatenated intro_path clip_paths crossfade_duration))\<rceil>)
                          (concatenated intro_path clip_paths crossfade_duration))
                       (- crossfade_duration))
                    (PInt 0) (PInt target_duration)) \<and>
         duration cd
           (Subclip
              (ConcatenateCompose
                 (replicate
                    (nat \<lceil>double_round (real_of_int target_duration
                       / duration cd (concatenated intro_path clip_paths crossfade_duration))\<rceil>)
                    (concatenated intro_path clip_paths crossfade_duration))
                 (- crossfade_duration))
              (PInt 0) (PInt target_duration))
           = real_of_int target_duration"
proof -
  from assms(1,2) have f: "find (\<lambda>p. \<not> can_open cd p) (intro_path # clip_paths) = None"
    by (simp add: find_None_iff list_all_iff)
  from assms(3) have nz: "duration cd (concatenated intro_path clip_paths crossfade_duration) \<noteq> 0"
    by simp
  from assms(5) have fin: "\<not> 2 ^ 1024 \<le> \<bar>double_round (real_of_int target_duration
      / duration cd (concatenated intro_path clip_paths crossfade_duration))\<bar>"
    by simp
  have "create_satisfy_montage cd intro_path clip_paths target_duration crossfade_duration
      = extend_montage cd (concatenated intro_path clip_paths crossfade_duration)
          target_duration crossfade_duration"
    using f by (simp add: create_satisfy_montage_find del: find.simps)
  then show ?thesis
    using assms(4,6) nz fin by (simp add: extend_montage_def repetition_count_def Let_def)
qed

theorem create_satisfy_montage_extends_to_target_witness:
  "can_open (moviepy [''intro.mp4'' \<mapsto> 11, ''a.mp4'' \<mapsto> 25]) ''intro.mp4'' \<and>
   list_all (can_open (moviepy [''intro.mp4'' \<mapsto> 11, ''a.mp4'' \<mapsto> 25])) [''a.mp4''] \<and>
   duration (moviepy [''intro.mp4'' \<mapsto> 11, ''a.mp4'' \<mapsto> 25])
     (concatenated ''intro.mp4'' [''a.mp4''] (1 / 2)) = 30 \<and>
   double_round (real_of_int 75 / 30) = 5 / 2 \<and>
   create_satisfy_montage (moviepy [''intro.mp4'' \<mapsto> 11, ''a.mp4'' \<mapsto> 25])
       ''intro.mp4'' [''a.mp4''] 75 (1 / 2)
     = Inr (Subclip
              (ConcatenateCompose
                 (replicate 3 (concatenated ''intro.mp4'' [''a.mp4''] (1 / 2))) (- (1 / 2)))
              (PInt 0) (PInt 75)) \<and>
   duration (moviepy [''intro.mp4'' \<mapsto> 11, ''a.mp4'' \<mapsto> 25])
     (Subclip
        (ConcatenateCompose
           (replicate 3 (concatenated ''intro.mp4'' [''a.mp4''] (1 / 2))) (- (1 / 2)))
        (PInt 0) (PInt 75)) = 75"
proof -
  let ?cd = "moviepy [''intro.mp4'' \<mapsto> 11, ''a.mp4'' \<mapsto> 25]"
  let ?c = "concatenated ''intro.mp4'' [''a.mp4''] (1 / 2)"
  have o1: "can_open ?cd ''intro.mp4''" by (simp add: moviepy_def)
  have o2: "list_all (can_open ?cd) [''a.mp4'']" by (simp add: moviepy_def)
  have d: "duration ?cd ?c = 30"
    by (simp add: duration_moviepy concatenated_def montage_clips_def)
  have "real_of_int 75 / 30 = (5 / 2 :: real)" by simp
  then have q: "double_round (real_of_int 75 / 30) = 5 / 2"
    by (simp only: double_round_five_halves)
  have pos: "0 < duration ?cd ?c" by (simp add: d)
  have lt: "duration ?cd ?c < real_of_int 75" by (simp add: d)
  have "\<bar>5 / 2 :: real\<bar> < 2 ^ 1024" by simp
  then have fin: "\<bar>double_round (real_of_int 75 / duration ?cd ?c)\<bar> < 2 ^ 1024"
    by (simp only: d q)
  have trim: "\<forall>c. duration ?cd (Subclip c (PInt 0) (PInt 75)) = real_of_int 75"
    by (simp add: duration_moviepy Let_def)
  have "nat \<lceil>5 / 2 :: real\<rceil> = 3" by simp
  then have n: "nat \<lceil>double_round (real_of_int 75 / duration ?cd ?c)\<rceil> = 3"
    by (simp only: d q)
  have t: "create_satisfy_montage ?cd ''intro.mp4'' [''a.mp4''] 75 (1 / 2)
             = Inr (Subclip (ConcatenateCompose (replicate 3 ?c) (- (1 / 2))) (PInt 0) (PInt 75)) \<and>
           duration ?cd (Subclip (ConcatenateCompose (replicate 3 ?c) (- (1 / 2))) (PInt 0) (PInt 75))
             = real_of_int 75"
    using create_satisfy_montage_extends_to_target [OF o1 o2 pos lt fin trim]
    by (simp only: n)
  from t o1 o2 d q show ?thesis by simp
qed

section \<open>Rendering an arrangement\<close>

text \<open>
  \<^verbatim>\<open>render_final_video\<close>. The name of the output file is taken from
  \<^verbatim>\<open>clip_paths[0]\<close>, which fails on an empty list. The clips are opened in order, then
  the intro (put first) and the outro (put last) when their paths are given. Each
  arrangement item whose \<^verbatim>\<open>clip_index\<close> passes \<^verbatim>\<open>0 <= clip_index < len(clips)\<close> adds a
  sub-clip, with an end time only when \<^verbatim>\<open>end_time\<close> is truthy. When there are arranged
  clips, every base clip is closed and the arranged clips, which read through the
  readers just closed, take the place of the base list. The list is then joined and
  written.
\<close>

fun open_all :: "codec \<Rightarrow> path list \<Rightarrow> error + clip list" where
  "open_all cd [] = Inr []"
| "open_all cd (p # paths) =
     (case open_clip cd p of
        Inl e \<Rightarrow> Inl e
      | Inr clip \<Rightarrow> (case open_all cd paths of Inl e \<Rightarrow> Inl e | Inr clips \<Rightarrow> Inr (clip # clips)))"

definition add_intro :: "codec \<Rightarrow> path option \<Rightarrow> clip list \<Rightarrow> error + clip list" where
  "add_intro cd intro_path clips =
     (case intro_path of
        None \<Rightarrow> Inr clips
      | Some p \<Rightarrow>
          if p \<noteq> [] then (case open_clip cd p of Inl e \<Rightarrow> Inl e | Inr intro_clip \<Rightarrow> Inr (intro_clip # clips))
          else Inr clips)"

definition add_outro :: "codec \<Rightarrow> path option \<Rightarrow> clip list \<Rightarrow> error + clip list" where
  "add_outro cd outro_path clips =
     (case outro_path of
        None \<Rightarrow> Inr clips
      | Some p \<Rightarrow>
          if p \<noteq> [] then (case open_clip cd p of Inl e \<Rightarrow> Inl e | Inr outro_clip \<Rightarrow> Inr (clips @ [outro_clip]))
          else Inr clips)"

definition base_clips :: "codec \<Rightarrow> path list \<Rightarrow> path option \<Rightarrow> path option \<Rightarrow> error + clip list" where
  "base_clips cd clip_paths intro_path outro_path =
     (case open_all cd clip_paths of
        Inl e \<Rightarrow> Inl e
      | Inr clips \<Rightarrow>
          (case add_intro cd intro_path clips of
             Inl e \<Rightarrow> Inl e
           | Inr clips1 \<Rightarrow> add_outro cd outro_path clips1))"

text \<open>
  \<^verbatim>\<open>0 <= clip_index < len(clips)\<close>: a value that is not a number cannot be compared
  with 0. \<^verbatim>\<open>clips[clip_index]\<close>: only an integer (or a bool) indexes a list.
\<close>

definition index_in_range :: "pyval \<Rightarrow> nat \<Rightarrow> error + bool" where
  "index_in_range clip_index n =
     (case num_of clip_index of
        None \<Rightarrow> Inl TypeError
      | Some x \<Rightarrow> Inr (0 \<le> x \<and> x < real n))"

definition int_item :: "clip list \<Rightarrow> int \<Rightarrow> error + clip" where
  "int_item clips i =
     (if int (length clips) \<le> i then Inl IndexError
      else if 0 \<le> i then Inr (clips ! nat i)
      else if 0 \<le> int (length clips) + i then Inr (clips ! nat (int (length clips) + i))
      else Inl IndexError)"

fun list_item :: "clip list \<Rightarrow> pyval \<Rightarrow> error + clip" where
  "list_item clips (PInt i) = int_item clips i"
| "list_item clips (PBool b) = int_item clips (if b then 1 else 0)"
| "list_item clips _ = Inl TypeError"

definition arrange_item :: "clip list \<Rightarrow> pydict \<Rightarrow> clip list \<Rightarrow> error + clip list" where
  "arrange_item clips item arranged_clips =
     (let clip_index = dget item ''clip_index'';
          start_time = dget_default item ''start_time'' (PInt 0);
          end_time = dget item ''end_time''
      in case index_in_range clip_index (length clips) of
           Inl e \<Rightarrow> Inl e
         | Inr in_range \<Rightarrow>
             if in_range
             then (case list_item clips clip_index of
                     Inl e \<Rightarrow> Inl e
                   | Inr c \<Rightarrow>
                       if truthy end_time
                       then Inr (arranged_clips @ [Subclip c start_time end_time])
                       else Inr (arranged_clips @ [Subclip c start_time PNone]))
             else Inr arranged_clips)"

text \<open>
  The loop over the sequence. \<open>arrange_item\<close> adds the sub-clip an item asks for; the
  library may refuse that sub-clip, which ends the loop with its exception.
\<close>

fun arrange :: "codec \<Rightarrow> clip list \<Rightarrow> pydict list \<Rightarrow> clip list \<Rightarrow> error + clip list" where
  "arrange cd clips [] arranged_clips = Inr arranged_clips"
| "arrange cd clips (item # items) arranged_clips =
     (case arrange_item clips item arranged_clips of
        Inl e \<Rightarrow> Inl e
      | Inr arranged \<Rightarrow>
          (case first_error cd (drop (length arranged_clips) arranged) of
             Some e \<Rightarrow> Inl e
           | None \<Rightarrow> arrange cd clips items arranged))"

definition sequence_items :: "pyobject \<Rightarrow> pydict list" where
  "sequence_items arrangement = (case arrangement ''sequence'' of None \<Rightarrow> [] | Some l \<Rightarrow> l)"

definition apply_arrangement :: "codec \<Rightarrow> pyobject option \<Rightarrow> clip list \<Rightarrow> error + clip list" where
  "apply_arrangement cd arrangement clips =
     (case arrangement of
        None \<Rightarrow> Inr clips
      | Some a \<Rightarrow>
          if a \<noteq> Map.empty
          then (case arrange cd clips (sequence_items a) [] of
                  Inl e \<Rightarrow> Inl e
                | Inr arranged_clips \<Rightarrow>
                    Inr (if arranged_clips \<noteq> [] then map close_readers arranged_clips
                         else clips))
          else Inr clips)"

definition render_final_video ::
  "codec \<Rightarrow> path list \<Rightarrow> pyobject option \<Rightarrow> path option \<Rightarrow> path option \<Rightarrow> error + clip" where
  "render_final_video cd clip_paths arrangement intro_path outro_path =
     (if clip_paths = [] then Inl IndexError
      else (case base_clips cd clip_paths intro_path outro_path of
              Inl e \<Rightarrow> Inl e
            | Inr clips \<Rightarrow>
                (case apply_arrangement cd arrangement clips of
                   Inl e \<Rightarrow> Inl e
                 | Inr clips' \<Rightarrow> concatenate_videoclips cd clips')))"

text \<open>
  An item with an integer \<^verbatim>\<open>clip_index\<close> is in range when the index is one of
  \<open>0, \<dots>, len(clips) - 1\<close>; the sub-clip it then adds.
\<close>

definition int_index :: "pydict \<Rightarrow> bool" where
  "int_index item = (case dget item ''clip_index'' of PInt i \<Rightarrow> True | _ \<Rightarrow> False)"

definition index_valid :: "clip list \<Rightarrow> pydict \<Rightarrow> bool" where
  "index_valid clips item =
     (case dget item ''clip_index'' of
        PInt i \<Rightarrow> 0 \<le> i \<and> i < int (length clips)
      | _ \<Rightarrow> False)"

definition item_clip :: "clip list \<Rightarrow> pydict \<Rightarrow> clip" where
  "item_clip clips item =
     (case dget item ''clip_index'' of
        PInt i \<Rightarrow>
          Subclip (clips ! nat i) (dget_default item ''start_time'' (PInt 0))
            (if truthy (dget item ''end_time'') then dget item ''end_time'' else PNone)
      | _ \<Rightarrow> Concatenate [])"

lemma index_in_range_int: "index_in_range (PInt i) n = Inr (0 \<le> i \<and> i < int n)"
proof -
  have "(real_of_int i < real n) = (i < int n)" by linarith
  then show ?thesis by (simp add: index_in_range_def)
qed

lemma arrange_item_int:
  assumes "int_index item"
  shows "arrange_item clips item acc =
           Inr (if index_valid clips item then acc @ [item_clip clips item] else acc)"
proof -
  from assms obtain i where i: "dget item ''clip_index'' = PInt i"
    by (auto simp: int_index_def split: pyval.splits)
  show ?thesis
  proof (cases "0 \<le> i \<and> i < int (length clips)")
    case True
    then have "int_item clips i = Inr (clips ! nat i)"
      by (simp add: int_item_def Let_def)
    with True i show ?thesis
      by (simp add: arrange_item_def index_in_range_int index_valid_def item_clip_def Let_def)
  next
    case False
    with i show ?thesis
      by (auto simp: arrange_item_def index_in_range_int index_valid_def Let_def)
  qed
qed

text \<open>An item whose \<^verbatim>\<open>clip_index\<close> is an integer outside \<open>0, \<dots>, len(clips) - 1\<close>.\<close>

definition out_of_range :: "clip list \<Rightarrow> pydict \<Rightarrow> bool" where
  "out_of_range clips item =
     (case dget item ''clip_index'' of
        PInt i \<Rightarrow> i < 0 \<or> int (length clips) \<le> i
      | _ \<Rightarrow> False)"

lemma arrange_item_out_of_range:
  assumes "out_of_range clips item"
  shows "arrange_item clips item acc = Inr acc"
proof -
  from assms obtain i where i: "dget item ''clip_index'' = PInt i"
    and r: "i < 0 \<or> int (length clips) \<le> i"
    by (auto simp: out_of_range_def split: pyval.splits)
  then have "int_index item" and "\<not> index_valid clips item"
    by (auto simp: int_index_def index_valid_def)
  then show ?thesis by (simp add: arrange_item_int)
qed

lemma arrange_all_out_of_range:
  "list_all (out_of_range clips) items \<Longrightarrow> arrange cd clips items acc = Inr acc"
  by (induction items) (simp_all add: arrange_item_out_of_range)

text \<open>
  C5, as the code has it. An arrangement item whose index is an integer outside the
  base list is skipped without failing: it adds nothing to the arranged list. When
  every item is skipped the arranged list is empty and the render does not fail for
  that: the base list (clips, with intro and outro) is joined and written instead.
\<close>

theorem render_final_video_skips_out_of_range:
  assumes "clip_paths \<noteq> []"
    and "base_clips cd clip_paths intro_path outro_path = Inr clips"
    and "arrangement \<noteq> Map.empty"
    and "list_all (out_of_range clips) (sequence_items arrangement)"
  shows "(\<forall>item arranged_clips.
            out_of_range clips item \<longrightarrow>
              arrange_item clips item arranged_clips = Inr arranged_clips) \<and>
         render_final_video cd clip_paths (Some arrangement) intro_path outro_path
           = concatenate_videoclips cd clips"
  using assms
  by (simp add: render_final_video_def apply_arrangement_def arrange_all_out_of_range
      arrange_item_out_of_range)

theorem render_final_video_skips_out_of_range_witness:
  "[''a.mp4'', ''b.mp4''] \<noteq> [] \<and>
   base_clips (moviepy [''a.mp4'' \<mapsto> 5, ''b.mp4'' \<mapsto> 7]) [''a.mp4'', ''b.mp4''] None None
     = Inr [VideoFileClip ''a.mp4'', VideoFileClip ''b.mp4''] \<and>
   [''sequence'' \<mapsto> [[''clip_index'' \<mapsto> PInt 7], [''clip_index'' \<mapsto> PInt (- 1)]]]
     \<noteq> Map.empty \<and>
   list_all (out_of_range [VideoFileClip ''a.mp4'', VideoFileClip ''b.mp4''])
     (sequence_items
        [''sequence'' \<mapsto> [[''clip_index'' \<mapsto> PInt 7], [''clip_index'' \<mapsto> PInt (- 1)]]]) \<and>
   arrange_item [VideoFileClip ''a.mp4'', VideoFileClip ''b.mp4'']
       [''clip_index'' \<mapsto> PInt 7] [] = Inr [] \<and>
   render_final_video (moviepy [''a.mp4'' \<mapsto> 5, ''b.mp4'' \<mapsto> 7]) [''a.mp4'', ''b.mp4'']
       (Some [''sequence'' \<mapsto> [[''clip_index'' \<mapsto> PInt 7], [''clip_index'' \<mapsto> PInt (- 1)]]])
       None None
     = Inr (Concatenate [VideoFileClip ''a.mp4'', VideoFileClip ''b.mp4''])"
proof -
  let ?cd = "moviepy [''a.mp4'' \<mapsto> 5, ''b.mp4'' \<mapsto> 7]"
  let ?a = "[''sequence'' \<mapsto> [[''clip_index'' \<mapsto> PInt 7], [''clip_index'' \<mapsto> PInt (- 1)]]]"
  let ?clips = "[VideoFileClip ''a.mp4'', VideoFileClip ''b.mp4'']"
  have p: "[''a.mp4'', ''b.mp4''] \<noteq> []" by simp
  have b: "base_clips ?cd [''a.mp4'', ''b.mp4''] None None = Inr ?clips"
    by (simp add: base_clips_def add_intro_def add_outro_def open_clip_moviepy)
  have ne: "?a \<noteq> Map.empty" by simp
  have seq: "sequence_items ?a = [[''clip_index'' \<mapsto> PInt 7], [''clip_index'' \<mapsto> PInt (- 1)]]"
    by (simp add: sequence_items_def)
  have out: "list_all (out_of_range ?clips) (sequence_items ?a)"
    by (simp add: seq out_of_range_def dget_def)
  have o7: "out_of_range ?clips [''clip_index'' \<mapsto> PInt 7]"
    by (simp add: out_of_range_def dget_def)
  have c: "concatenate_videoclips ?cd ?clips = Inr (Concatenate ?clips)"
    by (simp add: concatenate_videoclips_def library_error_moviepy concatenate_error_def)
  from render_final_video_skips_out_of_range [OF p b ne out] o7
  have "arrange_item ?clips [''clip_index'' \<mapsto> PInt 7] [] = Inr []"
    and "render_final_video ?cd [''a.mp4'', ''b.mp4''] (Some ?a) None None
           = concatenate_videoclips ?cd ?clips"
    by blast+
  with p b ne out c show ?thesis by simp
qed

text \<open>
  C5 as the specification states it fails: against a base list of two clips, the
  arrangement whose only item has \<^verbatim>\<open>clip_index = 5\<close> does not fail the render. The item
  is skipped and the two base clips are written.
\<close>

theorem render_final_video_all_skipped_succeeds:
  "render_final_video (moviepy [''a.mp4'' \<mapsto> 5, ''b.mp4'' \<mapsto> 7]) [''a.mp4'', ''b.mp4'']
       (Some [''sequence'' \<mapsto> [[''clip_index'' \<mapsto> PInt 5]]]) None None
     = Inr (Concatenate [VideoFileClip ''a.mp4'', VideoFileClip ''b.mp4''])"
proof -
  let ?clips = "[VideoFileClip ''a.mp4'', VideoFileClip ''b.mp4'']"
  let ?cd = "moviepy [''a.mp4'' \<mapsto> 5, ''b.mp4'' \<mapsto> 7]"
  have b: "base_clips ?cd [''a.mp4'', ''b.mp4''] None None = Inr ?clips"
    by (simp add: base_clips_def add_intro_def add_outro_def open_clip_moviepy)
  have i: "arrange_item ?clips [''clip_index'' \<mapsto> PInt 5] [] = Inr []"
    by (simp add: arrange_item_def index_in_range_def dget_def dget_default_def Let_def)
  have a: "arrange ?cd ?clips [[''clip_index'' \<mapsto> PInt 5]] [] = Inr []"
    by (simp add: i)
  show ?thesis
    by (simp add: render_final_video_def b apply_arrangement_def sequence_items_def a
        concatenate_videoclips_def library_error_moviepy concatenate_error_def
        del: arrange.simps)
qed

text \<open>
  With an item in range the arranged list is not empty; the base clips are closed
  before the arranged sub-clips are joined, and the reference codec cannot read
  them.
\<close>

lemma render_final_video_arranged_closed:
  "render_final_video (moviepy [''a.mp4'' \<mapsto> 5, ''b.mp4'' \<mapsto> 7]) [''a.mp4'', ''b.mp4'']
       (Some [''sequence'' \<mapsto> [[''clip_index'' \<mapsto> PInt 7],
                [''clip_index'' \<mapsto> PInt 1, ''start_time'' \<mapsto> PInt 1, ''end_time'' \<mapsto> PInt 3]]])
       None None
     = Inl AttributeError"
proof -
  let ?clips = "[VideoFileClip ''a.mp4'', VideoFileClip ''b.mp4'']"
  let ?cd = "moviepy [''a.mp4'' \<mapsto> 5, ''b.mp4'' \<mapsto> 7]"
  have b: "base_clips ?cd [''a.mp4'', ''b.mp4''] None None = Inr ?clips"
    by (simp add: base_clips_def add_intro_def add_outro_def open_clip_moviepy)
  have i1: "arrange_item ?clips [''clip_index'' \<mapsto> PInt 7] [] = Inr []"
    by (simp add: arrange_item_def index_in_range_def dget_def dget_default_def Let_def)
  have i2: "arrange_item ?clips
      [''clip_index'' \<mapsto> PInt 1, ''start_time'' \<mapsto> PInt 1, ''end_time'' \<mapsto> PInt 3] []
      = Inr [Subclip (VideoFileClip ''b.mp4'') (PInt 1) (PInt 3)]"
    by (simp add: arrange_item_def index_in_range_def int_item_def dget_def dget_default_def
        Let_def)
  have a: "arrange ?cd ?clips [[''clip_index'' \<mapsto> PInt 7],
      [''clip_index'' \<mapsto> PInt 1, ''start_time'' \<mapsto> PInt 1, ''end_time'' \<mapsto> PInt 3]] []
      = Inr [Subclip (VideoFileClip ''b.mp4'') (PInt 1) (PInt 3)]"
    by (simp add: i1 i2 library_error_moviepy subclip_error_def)
  show ?thesis
    by (simp add: render_final_video_def b apply_arrangement_def sequence_items_def a
        concatenate_videoclips_def library_error_moviepy concatenate_error_def
        del: arrange.simps)
qed

text \<open>
  C10. An item whose \<^verbatim>\<open>end_time\<close> is falsy (0, 0.0, null, false, the empty string) is
  handled exactly as the same item without the field. When its index is in range the
  sub-clip added is \<^verbatim>\<open>clips[clip_index].subclip(start_time)\<close>, with no end time: from
  \<^verbatim>\<open>start_time\<close> to the end of the clip.
\<close>

theorem arrange_item_falsy_end_time:
  assumes "\<not> truthy (dget item ''end_time'')"
  shows "arrange_item clips item arranged_clips
           = arrange_item clips (item(''end_time'' := None)) arranged_clips \<and>
         (\<forall>i. dget item ''clip_index'' = PInt i \<and> 0 \<le> i \<and> i < int (length clips) \<longrightarrow>
            arrange_item clips item arranged_clips
              = Inr (arranged_clips @
                       [Subclip (clips ! nat i) (dget_default item ''start_time'' (PInt 0)) PNone]))"
proof
  have e: "dget (item(''end_time'' := None)) ''end_time'' = PNone"
    by (simp add: dget_def)
  have c: "dget (item(''end_time'' := None)) ''clip_index'' = dget item ''clip_index''"
    by (simp add: dget_def)
  have st: "dget_default (item(''end_time'' := None)) ''start_time'' (PInt 0)
              = dget_default item ''start_time'' (PInt 0)"
    by (simp add: dget_default_def)
  show "arrange_item clips item arranged_clips
          = arrange_item clips (item(''end_time'' := None)) arranged_clips"
    unfolding arrange_item_def Let_def e c st using assms by (simp split: sum.split)
next
  show "\<forall>i. dget item ''clip_index'' = PInt i \<and> 0 \<le> i \<and> i < int (length clips) \<longrightarrow>
          arrange_item clips item arranged_clips
            = Inr (arranged_clips @
                     [Subclip (clips ! nat i) (dget_default item ''start_time'' (PInt 0)) PNone])"
  proof (intro allI impI)
    fix i
    assume a: "dget item ''clip_index'' = PInt i \<and> 0 \<le> i \<and> i < int (length clips)"
    then have "int_index item" and "index_valid clips item"
      by (simp_all add: int_index_def index_valid_def)
    with a assms show "arrange_item clips item arranged_clips
        = Inr (arranged_clips @
                 [Subclip (clips ! nat i) (dget_default item ''start_time'' (PInt 0)) PNone])"
      by (simp add: arrange_item_int item_clip_def)
  qed
qed

theorem arrange_item_falsy_end_time_witness:
  "\<not> truthy (dget [''clip_index'' \<mapsto> PInt 0, ''start_time'' \<mapsto> PInt 2, ''end_time'' \<mapsto> PInt 0]
       ''end_time'') \<and>
   arrange_item [VideoFileClip ''a.mp4'']
       [''clip_index'' \<mapsto> PInt 0, ''start_time'' \<mapsto> PInt 2, ''end_time'' \<mapsto> PInt 0] []
     = arrange_item [VideoFileClip ''a.mp4'']
         [''clip_index'' \<mapsto> PInt 0, ''start_time'' \<mapsto> PInt 2] [] \<and>
   arrange_item [VideoFileClip ''a.mp4'']
       [''clip_index'' \<mapsto> PInt 0, ''start_time'' \<mapsto> PInt 2, ''end_time'' \<mapsto> PInt 0] []
     = Inr [Subclip (VideoFileClip ''a.mp4'') (PInt 2) PNone]"
proof -
  let ?item = "[''clip_index'' \<mapsto> PInt 0, ''start_time'' \<mapsto> PInt 2, ''end_time'' \<mapsto> PInt 0]"
  have f: "\<not> truthy (dget ?item ''end_time'')" by (simp add: dget_def)
  have u: "?item(''end_time'' := None) = [''clip_index'' \<mapsto> PInt 0, ''start_time'' \<mapsto> PInt 2]"
    by simp
  have i: "dget ?item ''clip_index'' = PInt 0 \<and> (0::int) \<le> 0
             \<and> 0 < int (length [VideoFileClip ''a.mp4''])"
    by (simp add: dget_def)
  have s: "dget_default ?item ''start_time'' (PInt 0) = PInt 2" by (simp add: dget_default_def)
  from arrange_item_falsy_end_time [OF f, of "[VideoFileClip ''a.mp4'']" "[]"] f u i s
  show ?thesis by auto
qed

section \<open>Silence removal\<close>

text \<open>
  \<^verbatim>\<open>remove_silence\<close>, from the sound array to the list of non-silent segments. The
  audio is the array of its frames (a row of channel values per frame), its frame
  rate and its duration. The array is scanned in windows of \<open>int(fps * 0.1)\<close> frames,
  which is \<open>fps div 10\<close>; \<^verbatim>\<open>range\<close> refuses a step of 0. The level of a
  window is \<open>20 * log10(sqrt(mean(chunk**2)) + eps)\<close> with \<open>eps = 2\<^sup>-\<^sup>5\<^sup>2\<close>, and its time
  is \<open>i / fps\<close> for the index \<open>i\<close> of its first frame.
\<close>

record audio =
  audio_array :: "real list list"
  audio_frame_rate :: nat
  audio_duration :: real

definition eps :: real where
  "eps = 1 / 2 ^ 52"

definition chunk_amplitude :: "real list list \<Rightarrow> real" where
  "chunk_amplitude chunk =
     20 * log 10 (sqrt (sum_list (map (\<lambda>x. x\<^sup>2) (concat chunk)) / real (length (concat chunk))) + eps)"

definition py_range :: "nat \<Rightarrow> nat \<Rightarrow> nat list" where
  "py_range n step = map (\<lambda>k. k * step) [0 ..< (n + step - 1) div step]"

text \<open>The windows the loop looks at: the time and the level of every non-empty chunk.\<close>

definition amplitude_trace :: "audio \<Rightarrow> (real \<times> real) list" where
  "amplitude_trace a =
     (let step = audio_frame_rate a div 10
      in map (\<lambda>i. (real i / real (audio_frame_rate a),
                    chunk_amplitude (take step (drop i (audio_array a)))))
           (filter (\<lambda>i. length (take step (drop i (audio_array a))) \<noteq> 0)
              (py_range (length (audio_array a)) step)))"

record scan =
  non_silent_segments :: "(real \<times> real) list"
  is_silent :: bool
  segment_start :: real

definition scan_window :: "real \<Rightarrow> real \<Rightarrow> real \<times> real \<Rightarrow> scan \<Rightarrow> scan" where
  "scan_window min_silence_duration silence_threshold w st =
     (let current_time = fst w; amplitude = snd w
      in if is_silent st \<and> amplitude > silence_threshold
         then st\<lparr>segment_start := current_time, is_silent := False\<rparr>
         else if \<not> is_silent st \<and> amplitude \<le> silence_threshold
         then (if current_time - segment_start st \<ge> min_silence_duration
               then st\<lparr>non_silent_segments :=
                         non_silent_segments st @ [(segment_start st, current_time)],
                       is_silent := True\<rparr>
               else st\<lparr>is_silent := True\<rparr>)
         else st)"

definition finish_scan :: "real \<Rightarrow> scan \<Rightarrow> (real \<times> real) list" where
  "finish_scan total_duration st =
     (if \<not> is_silent st then non_silent_segments st @ [(segment_start st, total_duration)]
      else non_silent_segments st)"

definition remove_silence_segments :: "audio \<Rightarrow> real \<Rightarrow> real \<Rightarrow> error + (real \<times> real) list" where
  "remove_silence_segments a min_silence_duration silence_threshold =
     (if audio_frame_rate a div 10 = 0 then Inl (ValueError ''range() arg 3 must not be zero'')
      else Inr (finish_scan (audio_duration a)
                  (fold (scan_window min_silence_duration silence_threshold) (amplitude_trace a)
                     \<lparr>non_silent_segments = [], is_silent = True, segment_start = 0\<rparr>)))"

text \<open>
  A sequence of spans is ordered and non-overlapping: each span ends after it starts,
  and starts no earlier than the span before it ends.
\<close>

fun ordered_spans :: "(real \<times> real) list \<Rightarrow> bool" where
  "ordered_spans [] = True"
| "ordered_spans [(s, e)] = (s < e)"
| "ordered_spans ((s, e) # (s', e') # rest) = (s < e \<and> e \<le> s' \<and> ordered_spans ((s', e') # rest))"

definition spans_before :: "(real \<times> real) list \<Rightarrow> real \<Rightarrow> bool" where
  "spans_before segs b = (ordered_spans segs \<and> (segs \<noteq> [] \<longrightarrow> snd (last segs) \<le> b))"

lemma spans_before_mono: "spans_before segs b \<Longrightarrow> b \<le> b' \<Longrightarrow> spans_before segs b'"
  by (auto simp: spans_before_def)

lemma ordered_spans_snoc:
  "ordered_spans segs \<Longrightarrow> (segs \<noteq> [] \<longrightarrow> snd (last segs) \<le> s) \<Longrightarrow> s < e
   \<Longrightarrow> ordered_spans (segs @ [(s, e)])"
  by (induction segs rule: ordered_spans.induct) auto

lemma spans_before_snoc:
  "spans_before segs s \<Longrightarrow> s < e \<Longrightarrow> e \<le> b \<Longrightarrow> spans_before (segs @ [(s, e)]) b"
  by (simp add: spans_before_def ordered_spans_snoc)

definition scan_inv :: "real \<Rightarrow> scan \<Rightarrow> bool" where
  "scan_inv t st =
     (if is_silent st then spans_before (non_silent_segments st) t
      else spans_before (non_silent_segments st) (segment_start st) \<and> segment_start st \<le> t)"

lemma scan_window_inv:
  assumes "scan_inv t st" and "t < fst w"
  shows "scan_inv (fst w) (scan_window m thr w st)"
  using assms
  by (auto simp: scan_inv_def scan_window_def Let_def
      intro: spans_before_mono spans_before_snoc split: if_splits)

lemma fold_scan_inv:
  "scan_inv t st \<Longrightarrow> sorted_wrt (<) (map fst ws) \<Longrightarrow> \<forall>w\<in>set ws. t < fst w
   \<Longrightarrow> scan_inv (if ws = [] then t else fst (last ws)) (fold (scan_window m thr) ws st)"
proof (induction ws arbitrary: t st)
  case Nil
  then show ?case by simp
next
  case (Cons w ws)
  have 1: "scan_inv (fst w) (scan_window m thr w st)"
    using Cons.prems by (intro scan_window_inv) auto
  have 2: "sorted_wrt (<) (map fst ws)" using Cons.prems by simp
  have 3: "\<forall>v\<in>set ws. fst w < fst v" using Cons.prems by auto
  from Cons.IH [OF 1 2 3] show ?case by (cases "ws = []") simp_all
qed

lemma py_range_sorted: "0 < step \<Longrightarrow> sorted_wrt (<) (py_range n step)"
  by (simp add: py_range_def sorted_wrt_map sorted_wrt_iff_nth_less)

lemma py_range_less:
  assumes "0 < step" and "i \<in> set (py_range n step)"
  shows "i < n"
proof -
  from assms(2) have "\<exists>k. i = k * step \<and> k < (n + step - 1) div step"
    unfolding py_range_def by auto
  then obtain k where k: "i = k * step" "k < (n + step - 1) div step"
    by blast
  from k(2) have "Suc k \<le> (n + step - 1) div step" by simp
  then have "Suc k * step \<le> n + step - 1"
    using assms(1) by (simp add: less_eq_div_iff_mult_less_eq)
  then show ?thesis using k(1) assms(1) by simp
qed

lemma py_range_nonempty: "0 < step \<Longrightarrow> 0 < n \<Longrightarrow> \<exists>rest. py_range n step = 0 # rest"
proof -
  assume "0 < step" "0 < n"
  then have "0 < (n + step - 1) div step"
    by (simp add: div_greater_zero_iff)
  then show ?thesis
    by (auto simp: py_range_def upt_conv_Cons)
qed

lemma trace_filter:
  assumes "0 < step"
  shows "filter (\<lambda>i. length (take step (drop i arr)) \<noteq> 0) (py_range (length arr) step)
           = py_range (length arr) step"
  using assms py_range_less [OF assms]
  by (auto simp: filter_id_conv)

lemma fold_loud:
  "\<not> is_silent st \<Longrightarrow> list_all (\<lambda>w. thr < snd w) ws \<Longrightarrow> fold (scan_window m thr) ws st = st"
  by (induction ws) (auto simp: scan_window_def Let_def)


lemma amplitude_trace_range:
  assumes "10 \<le> audio_frame_rate a"
  shows "amplitude_trace a =
           map (\<lambda>i. (real i / real (audio_frame_rate a),
                  chunk_amplitude (take (audio_frame_rate a div 10) (drop i (audio_array a)))))
             (py_range (length (audio_array a)) (audio_frame_rate a div 10))"
proof -
  from assms have "0 < audio_frame_rate a div 10" by (simp add: div_greater_zero_iff)
  then show ?thesis
    unfolding amplitude_trace_def Let_def by (simp only: trace_filter)
qed

lemma amplitude_trace_sorted:
  assumes "10 \<le> audio_frame_rate a"
  shows "sorted_wrt (<) (map fst (amplitude_trace a))"
proof -
  from assms have step: "0 < audio_frame_rate a div 10" by (simp add: div_greater_zero_iff)
  from assms have fps: "0 < real (audio_frame_rate a)" by simp
  have "sorted_wrt (\<lambda>i j. real i / real (audio_frame_rate a) < real j / real (audio_frame_rate a))
          (py_range (length (audio_array a)) (audio_frame_rate a div 10))"
  proof (rule sorted_wrt_mono_rel [OF _ py_range_sorted [OF step]])
    fix i j :: nat
    assume "i < j"
    then show "real i / real (audio_frame_rate a) < real j / real (audio_frame_rate a)"
      using fps by (simp add: divide_strict_right_mono)
  qed
  then show ?thesis
    by (simp add: amplitude_trace_range [OF assms] sorted_wrt_map comp_def)
qed

lemma amplitude_trace_times:
  assumes "10 \<le> audio_frame_rate a"
    and "real (length (audio_array a)) - 1 < audio_duration a * real (audio_frame_rate a)"
    and "w \<in> set (amplitude_trace a)"
  shows "0 \<le> fst w \<and> fst w < audio_duration a"
proof -
  from assms(1) have step: "0 < audio_frame_rate a div 10" by (simp add: div_greater_zero_iff)
  from assms(1) have fps: "0 < real (audio_frame_rate a)" by simp
  from assms(3) obtain i where i: "i \<in> set (py_range (length (audio_array a)) (audio_frame_rate a div 10))"
    and w: "fst w = real i / real (audio_frame_rate a)"
    by (auto simp: amplitude_trace_range [OF assms(1)])
  from py_range_less [OF step i] have "real i \<le> real (length (audio_array a)) - 1" by linarith
  with assms(2) have "real i < audio_duration a * real (audio_frame_rate a)" by linarith
  then have "real i / real (audio_frame_rate a) < audio_duration a"
    using fps by (simp add: divide_less_eq)
  with w show ?thesis by simp
qed

text \<open>
  C7. For an audio whose frame rate allows a window (at least 10 frames per second)
  and whose frames all lie within its duration (the time of the last frame,
  \<open>(n - 1) / fps\<close>, is before \<open>audio.duration\<close>), the scan returns its list of segments and
  the list is ordered and non-overlapping: each segment has start < end and starts at
  or after the end of the one before, whatever the levels, the threshold and the
  minimum duration.
\<close>

theorem remove_silence_segments_ordered:
  assumes "10 \<le> audio_frame_rate a"
    and "real (length (audio_array a)) - 1 < audio_duration a * real (audio_frame_rate a)"
  shows "\<exists>segs. remove_silence_segments a min_silence_duration silence_threshold = Inr segs
           \<and> ordered_spans segs"
proof -
  let ?init = "\<lparr>non_silent_segments = [], is_silent = True, segment_start = 0\<rparr>"
  let ?ws = "amplitude_trace a"
  let ?st = "fold (scan_window min_silence_duration silence_threshold) ?ws ?init"
  let ?t = "if ?ws = [] then - 1 else fst (last ?ws)"
  have init: "scan_inv (- 1) ?init" by (simp add: scan_inv_def spans_before_def)
  have after: "\<forall>w\<in>set ?ws. - 1 < fst w"
    using amplitude_trace_times [OF assms] by fastforce
  have inv: "scan_inv ?t ?st"
    by (rule fold_scan_inv [OF init amplitude_trace_sorted [OF assms(1)] after])
  have "ordered_spans (finish_scan (audio_duration a) ?st)"
  proof (cases "is_silent ?st")
    case True
    with inv show ?thesis by (simp add: scan_inv_def spans_before_def finish_scan_def)
  next
    case False
    then have ne: "?ws \<noteq> []" by auto
    then have "last ?ws \<in> set ?ws" by simp
    from amplitude_trace_times [OF assms this] have "fst (last ?ws) < audio_duration a" by simp
    moreover from inv False ne have "spans_before (non_silent_segments ?st) (segment_start ?st)"
      and "segment_start ?st \<le> fst (last ?ws)"
      by (simp_all add: scan_inv_def)
    ultimately show ?thesis using False
      by (simp add: finish_scan_def spans_before_def ordered_spans_snoc)
  qed
  moreover from assms(1) have "audio_frame_rate a div 10 \<noteq> 0" by simp
  ultimately show ?thesis by (simp add: remove_silence_segments_def)
qed

text \<open>
  C2, as the code has it. When every window is strictly above the threshold, the
  result is the single segment from 0 to the duration of the audio as soon as there is
  a window at all, whatever \<open>min_silence_duration\<close> is; it is empty only for an audio
  without frames. The minimum duration is looked at only when a window falls back to
  silence, never at the end of the audio.
\<close>

theorem remove_silence_segments_all_loud:
  assumes "10 \<le> audio_frame_rate a"
    and "list_all (\<lambda>w. silence_threshold < snd w) (amplitude_trace a)"
  shows "remove_silence_segments a min_silence_duration silence_threshold =
           Inr (if audio_array a = [] then [] else [(0, audio_duration a)])"
proof -
  from assms(1) have step: "0 < audio_frame_rate a div 10" by (simp add: div_greater_zero_iff)
  let ?init = "\<lparr>non_silent_segments = [], is_silent = True, segment_start = 0\<rparr>"
  show ?thesis
  proof (cases "audio_array a = []")
    case True
    then have "amplitude_trace a = []"
      by (simp add: amplitude_trace_def py_range_def)
    with True step show ?thesis by (simp add: remove_silence_segments_def finish_scan_def)
  next
    case False
    then have "0 < length (audio_array a)" by simp
    from py_range_nonempty [OF step this] obtain rest
      where r: "py_range (length (audio_array a)) (audio_frame_rate a div 10) = 0 # rest" by blast
    then obtain w ws where t: "amplitude_trace a = w # ws" and w0: "fst w = 0"
      by (auto simp: amplitude_trace_range [OF assms(1)])
    from assms(2) t have loud: "silence_threshold < snd w"
      and rest: "list_all (\<lambda>w. silence_threshold < snd w) ws" by simp_all
    have first: "scan_window min_silence_duration silence_threshold w ?init
        = \<lparr>non_silent_segments = [], is_silent = False, segment_start = 0\<rparr>"
      using loud w0 by (simp add: scan_window_def Let_def)
    have "fold (scan_window min_silence_duration silence_threshold) (amplitude_trace a) ?init
        = \<lparr>non_silent_segments = [], is_silent = False, segment_start = 0\<rparr>"
      using fold_loud [OF _ rest] by (simp add: t first)
    with False step show ?thesis by (simp add: remove_silence_segments_def finish_scan_def)
  qed
qed


lemma chunk_amplitude_loud: "chunk_amplitude [[1]] > 0"
proof -
  have "0 < log 10 (1 + eps)" by (simp add: eps_def)
  then show ?thesis by (simp add: chunk_amplitude_def)
qed

lemma log_eps: "log 10 eps \<le> - 2"
proof -
  have "log 10 eps \<le> log 10 (1 / 10 ^ 2)"
    by (subst log_le_cancel_iff) (simp_all add: eps_def)
  also have "log 10 (1 / 10 ^ 2) = - 2"
  proof -
    have "log 10 ((10::real) ^ 2) = 2" by (subst log_nat_power) simp_all
    then show ?thesis by (simp add: log_divide)
  qed
  finally show ?thesis .
qed

lemma chunk_amplitude_quiet: "chunk_amplitude [[0]] \<le> - 40"
  using log_eps by (simp add: chunk_amplitude_def)

text \<open>
  C2 as the specification states it fails: one window above the threshold in an
  audio of a tenth of a second, with \<open>min_silence_duration = 0.5\<close>. The duration is
  below the minimum, and the result is the segment from 0 to 0.1, not the empty list.
\<close>

theorem remove_silence_segments_short_loud:
  "audio_duration \<lparr>audio_array = [[1]], audio_frame_rate = 10, audio_duration = 1 / 10\<rparr> < 1 / 2 \<and>
   list_all (\<lambda>w. - 40 < snd w)
     (amplitude_trace \<lparr>audio_array = [[1]], audio_frame_rate = 10, audio_duration = 1 / 10\<rparr>) \<and>
   remove_silence_segments \<lparr>audio_array = [[1]], audio_frame_rate = 10, audio_duration = 1 / 10\<rparr>
       (1 / 2) (- 40)
     = Inr [(0, 1 / 10)]"
proof -
  let ?a = "\<lparr>audio_array = [[1]], audio_frame_rate = 10, audio_duration = 1 / 10\<rparr>"
  have t: "amplitude_trace ?a = [(0, chunk_amplitude [[1]])]"
    by (simp add: amplitude_trace_def py_range_def)
  have l: "- 40 < chunk_amplitude [[1]]" using chunk_amplitude_loud by linarith
  show ?thesis using l
    by (simp add: t remove_silence_segments_def scan_window_def finish_scan_def)
qed


lemma py_range_three: "py_range (Suc (Suc (Suc 0))) (Suc 0) = [0, Suc 0, Suc (Suc 0)]"
  by (simp add: py_range_def upt_conv_Cons)


theorem remove_silence_segments_all_loud_witness:
  "(10::nat) \<le> audio_frame_rate \<lparr>audio_array = [[1], [1], [1]], audio_frame_rate = 10, audio_duration = 3 / 10\<rparr> \<and>
   list_all (\<lambda>w. - 40 < snd w)
     (amplitude_trace \<lparr>audio_array = [[1], [1], [1]], audio_frame_rate = 10, audio_duration = 3 / 10\<rparr>) \<and>
   remove_silence_segments \<lparr>audio_array = [[1], [1], [1]], audio_frame_rate = 10, audio_duration = 3 / 10\<rparr>
       (1 / 2) (- 40)
     = Inr [(0, 3 / 10)]"
proof -
  let ?a = "\<lparr>audio_array = [[1], [1], [1]], audio_frame_rate = 10, audio_duration = 3 / 10\<rparr>"
  have f: "10 \<le> audio_frame_rate ?a" by simp
  have t: "amplitude_trace ?a
      = [(0, chunk_amplitude [[1]]), (1 / 10, chunk_amplitude [[1]]), (2 / 10, chunk_amplitude [[1]])]"
    by (simp add: amplitude_trace_def py_range_three)
  have l: "- 40 < chunk_amplitude [[1]]" using chunk_amplitude_loud by linarith
  have all: "list_all (\<lambda>w. - 40 < snd w) (amplitude_trace ?a)" using l by (simp add: t)
  from remove_silence_segments_all_loud [OF f all, of "1 / 2"] f all
  show ?thesis by simp
qed

theorem remove_silence_segments_ordered_witness:
  "(10::nat) \<le> audio_frame_rate \<lparr>audio_array = [[1], [0], [1]], audio_frame_rate = 10, audio_duration = 3 / 10\<rparr> \<and>
   real (length (audio_array \<lparr>audio_array = [[1], [0], [1]], audio_frame_rate = 10, audio_duration = 3 / 10\<rparr>)) - 1
     < audio_duration \<lparr>audio_array = [[1], [0], [1]], audio_frame_rate = 10, audio_duration = 3 / 10\<rparr>
       * real (audio_frame_rate \<lparr>audio_array = [[1], [0], [1]], audio_frame_rate = 10, audio_duration = 3 / 10\<rparr>) \<and>
   remove_silence_segments \<lparr>audio_array = [[1], [0], [1]], audio_frame_rate = 10, audio_duration = 3 / 10\<rparr>
       0 (- 40)
     = Inr [(0, 1 / 10), (1 / 5, 3 / 10)] \<and>
   ordered_spans [(0, 1 / 10), (1 / 5, 3 / 10)]"
proof -
  let ?a = "\<lparr>audio_array = [[1], [0], [1]], audio_frame_rate = 10, audio_duration = 3 / 10\<rparr>"
  have f: "10 \<le> audio_frame_rate ?a" by simp
  have d: "real (length (audio_array ?a)) - 1 < audio_duration ?a * real (audio_frame_rate ?a)"
    by simp
  have t: "amplitude_trace ?a
      = [(0, chunk_amplitude [[1]]), (1 / 10, chunk_amplitude [[0]]), (2 / 10, chunk_amplitude [[1]])]"
    by (simp add: amplitude_trace_def py_range_three)
  have l: "- 40 < chunk_amplitude [[1]]" using chunk_amplitude_loud by linarith
  have q: "\<not> - 40 < chunk_amplitude [[0]]" using chunk_amplitude_quiet by linarith
  have r: "remove_silence_segments ?a 0 (- 40) = Inr [(0, 1 / 10), (1 / 5, 3 / 10)]"
    using l q chunk_amplitude_quiet
    by (simp add: t remove_silence_segments_def scan_window_def finish_scan_def)
  from remove_silence_segments_ordered [OF f d, of 0 "- 40"] f d r
  show ?thesis by simp
qed

section \<open>Subtitles from a plain-text transcript\<close>

text \<open>
  Python's string methods, on strings of one-byte characters. \<^verbatim>\<open>strip()\<close> and
  \<^verbatim>\<open>split()\<close> treat as white space the characters 9 to 13, 28 to 32, 133 and 160.
  \<^verbatim>\<open>s.split(sep)\<close> cuts at every occurrence of \<open>sep\<close> from the left and keeps empty
  pieces; it is called with the separators \<^verbatim>\<open>'\n\n'\<close> and \<^verbatim>\<open>'\n'\<close> only (an empty
  separator, which Python refuses, does not occur). \<^verbatim>\<open>s.split()\<close> cuts at runs of
  white space and keeps no empty piece.
\<close>

definition is_space :: "char \<Rightarrow> bool" where
  "is_space c =
     (let n = (of_char c :: nat)
      in (9 \<le> n \<and> n \<le> 13) \<or> (28 \<le> n \<and> n \<le> 32) \<or> n = 133 \<or> n = 160)"

definition strip :: "string \<Rightarrow> string" where
  "strip s = rev (dropWhile is_space (rev (dropWhile is_space s)))"

fun split_acc :: "string \<Rightarrow> string \<Rightarrow> string \<Rightarrow> string list" where
  "split_acc sep cur [] = [rev cur]"
| "split_acc sep cur (c # cs) =
     (if take (length sep) (c # cs) = sep
      then rev cur # split_acc sep [] (drop (length sep - 1) cs)
      else split_acc sep (c # cur) cs)"

definition split_on :: "string \<Rightarrow> string \<Rightarrow> string list" where
  "split_on sep s = split_acc sep [] s"

fun words_acc :: "string \<Rightarrow> string \<Rightarrow> string list" where
  "words_acc cur [] = (if cur = [] then [] else [rev cur])"
| "words_acc cur (c # cs) =
     (if is_space c
      then (if cur = [] then words_acc [] cs else rev cur # words_acc [] cs)
      else words_acc (c # cur) cs)"

definition split_words :: "string \<Rightarrow> string list" where
  "split_words s = words_acc [] s"

definition newline :: char where
  "newline = CHR 0x0A"

text \<open>
  \<^verbatim>\<open>process_plain_text_transcript\<close>. A subtitle is the dictionary with the keys
  \<^verbatim>\<open>start_time\<close>, \<^verbatim>\<open>end_time\<close> and \<^verbatim>\<open>text\<close>. The loop carries the list of subtitles and
  \<^verbatim>\<open>current_time\<close>; 2.5 words per second is the fraction \<open>5 / 2\<close>.
\<close>

record subtitle =
  start_time :: real
  end_time :: real
  subtitle_text :: string

definition transcript_lines :: "string \<Rightarrow> string list" where
  "transcript_lines transcript_text =
     (let lines = split_on [newline, newline] (strip transcript_text)
      in if length lines \<le> 1 then split_on [newline] (strip transcript_text) else lines)"

definition subtitle_step :: "string \<Rightarrow> subtitle list \<times> real \<Rightarrow> subtitle list \<times> real" where
  "subtitle_step line0 st =
     (let subtitles = fst st; current_time = snd st; line = strip line0
      in if line = [] then st
         else (let word_count = length (split_words line);
                   duration0 = real word_count / (5 / 2);
                   duration1 = max duration0 1
               in (subtitles @ [\<lparr>start_time = current_time,
                                  end_time = current_time + duration1,
                                  subtitle_text = line\<rparr>],
                   current_time + duration1)))"

definition process_plain_text_transcript :: "string \<Rightarrow> subtitle list" where
  "process_plain_text_transcript transcript_text =
     fst (fold subtitle_step (transcript_lines transcript_text) ([], 0))"

text \<open>
  The synthesizer as the specification words it: the blocks are those between blank
  lines when there is more than one, otherwise the single lines; every non-empty line
  becomes a caption that starts at the running clock and lasts
  \<open>max (word_count / 2.5) 1\<close> seconds; the clock starts at 0.
\<close>

definition caption_blocks :: "string \<Rightarrow> string list" where
  "caption_blocks transcript =
     (if 1 < length (split_on [newline, newline] (strip transcript))
      then split_on [newline, newline] (strip transcript)
      else split_on [newline] (strip transcript))"

definition caption_duration :: "string \<Rightarrow> real" where
  "caption_duration line = max (real (length (split_words line)) / (5 / 2)) 1"

fun captions_from :: "real \<Rightarrow> string list \<Rightarrow> subtitle list" where
  "captions_from clock [] = []"
| "captions_from clock (block # blocks) =
     (if strip block = [] then captions_from clock blocks
      else \<lparr>start_time = clock, end_time = clock + caption_duration (strip block),
             subtitle_text = strip block\<rparr>
           # captions_from (clock + caption_duration (strip block)) blocks)"

lemma transcript_lines_blocks: "transcript_lines t = caption_blocks t"
  by (auto simp: transcript_lines_def caption_blocks_def Let_def)

lemma fold_subtitle_step:
  "fst (fold subtitle_step ls (acc, t)) = acc @ captions_from t ls"
  by (induction ls arbitrary: acc t)
     (simp_all add: subtitle_step_def caption_duration_def Let_def)

lemma example_lines:
  "transcript_lines (''hello world'' @ [newline, newline] @ ''foo bar baz'')
     = [''hello world'', ''foo bar baz'']"
  by code_simp

lemma example_strip: "strip ''hello world'' = ''hello world''" "strip ''foo bar baz'' = ''foo bar baz''"
  by code_simp+

lemma example_words: "length (split_words ''hello world'') = 2" "length (split_words ''foo bar baz'') = 3"
  by code_simp+

text \<open>
  C8. The subtitles computed by the loop are the captions of the specification: the
  blocks between blank lines when there is more than one and the single lines
  otherwise, the white-space-only lines left out, each caption starting at the running
  clock (which starts at 0) and lasting \<open>max (word_count / 2.5) 1\<close> seconds. On the
  transcript \<^verbatim>\<open>"hello world\n\nfoo bar baz"\<close> these are the two captions
  \<open>[0, 1, "hello world"]\<close> and \<open>[1, 2.2, "foo bar baz"]\<close>.
\<close>

theorem process_plain_text_transcript_captions:
  "process_plain_text_transcript transcript = captions_from 0 (caption_blocks transcript) \<and>
   process_plain_text_transcript (''hello world'' @ [newline, newline] @ ''foo bar baz'')
     = [\<lparr>start_time = 0, end_time = 1, subtitle_text = ''hello world''\<rparr>,
        \<lparr>start_time = 1, end_time = 11 / 5, subtitle_text = ''foo bar baz''\<rparr>]"
proof
  show "process_plain_text_transcript transcript = captions_from 0 (caption_blocks transcript)"
    by (simp add: process_plain_text_transcript_def fold_subtitle_step transcript_lines_blocks)
next
  show "process_plain_text_transcript (''hello world'' @ [newline, newline] @ ''foo bar baz'')
     = [\<lparr>start_time = 0, end_time = 1, subtitle_text = ''hello world''\<rparr>,
        \<lparr>start_time = 1, end_time = 11 / 5, subtitle_text = ''foo bar baz''\<rparr>]"
    unfolding process_plain_text_transcript_def example_lines
    by (simp add: subtitle_step_def example_strip example_words Let_def)
qed

section \<open>Writing subtitles\<close>

text \<open>
  \<^verbatim>\<open>format_time\<close> builds a \<^verbatim>\<open>timedelta\<close> from the seconds. A \<^verbatim>\<open>timedelta\<close> holds days,
  seconds of the day (0 to 86399) and microseconds (0 to 999999); the seconds given are
  rounded to the nearest microsecond, ties to even, and more than 999999999 days are
  refused. The time is printed from the seconds of the day and the microseconds alone.
  \<^verbatim>\<open>{n:02}\<close> prints a natural number in decimal, with zeros in front up to two digits.
\<close>

record timedelta =
  td_days :: int
  td_seconds :: int
  td_microseconds :: int

definition timedelta_seconds :: "real \<Rightarrow> error + timedelta" where
  "timedelta_seconds seconds =
     (let us = round_half_even (seconds * 1000000);
          d = us div 86400000000
      in if 999999999 < \<bar>d\<bar> then Inl ArithmeticError
         else Inr \<lparr>td_days = d,
                   td_seconds = (us mod 86400000000) div 1000000,
                   td_microseconds = us mod 1000000\<rparr>)"

definition digit_char :: "nat \<Rightarrow> char" where
  "digit_char d = char_of (48 + d)"

fun str_nat :: "nat \<Rightarrow> string" where
  "str_nat n = (if n < 10 then [digit_char n] else str_nat (n div 10) @ [digit_char (n mod 10)])"

declare str_nat.simps [simp del]

definition zero_pad :: "nat \<Rightarrow> nat \<Rightarrow> string" where
  "zero_pad width n = replicate (width - length (str_nat n)) (CHR ''0'') @ str_nat n"

definition format_time :: "real \<Rightarrow> error + string" where
  "format_time seconds =
     (case timedelta_seconds seconds of
        Inl e \<Rightarrow> Inl e
      | Inr td \<Rightarrow>
          (let hours = td_seconds td div 3600;
               remainder = td_seconds td mod 3600;
               minutes = remainder div 60;
               secs = remainder mod 60;
               milliseconds = td_microseconds td div 1000
           in Inr (zero_pad 2 (nat hours) @ '':'' @ zero_pad 2 (nat minutes) @ '':''
                   @ zero_pad 2 (nat secs) @ '','' @ zero_pad 3 (nat milliseconds))))"

text \<open>
  \<^verbatim>\<open>write_srt\<close>: the text written to the file, entry by entry, numbered from 1.
\<close>

fun write_entries :: "nat \<Rightarrow> subtitle list \<Rightarrow> error + string" where
  "write_entries i [] = Inr []"
| "write_entries i (subtitle # subtitles) =
     (case format_time (start_time subtitle) of
        Inl e \<Rightarrow> Inl e
      | Inr start_formatted \<Rightarrow>
          (case format_time (end_time subtitle) of
             Inl e \<Rightarrow> Inl e
           | Inr end_formatted \<Rightarrow>
               (case write_entries (Suc i) subtitles of
                  Inl e \<Rightarrow> Inl e
                | Inr rest \<Rightarrow>
                    Inr (str_nat i @ [newline]
                         @ start_formatted @ '' --> '' @ end_formatted @ [newline]
                         @ subtitle_text subtitle @ [newline, newline]
                         @ rest))))"

definition write_srt :: "subtitle list \<Rightarrow> error + string" where
  "write_srt subtitles = write_entries 1 subtitles"

text \<open>
  Modelled from the spec: the reading of a timestamp. The repository writes timestamps
  and has no reader for them; the specification's timestamp law, \<open>HH:MM:SS\<close> plus
  milliseconds joined by a comma, is read back as
  \<open>3600 * HH + 60 * MM + SS + mmm / 1000\<close> seconds.
\<close>

definition digit_value :: "char \<Rightarrow> nat option" where
  "digit_value c =
     (if 48 \<le> (of_char c :: nat) \<and> (of_char c :: nat) \<le> 57 then Some (of_char c - 48) else None)"

fun parse_digits :: "nat \<Rightarrow> string \<Rightarrow> nat option" where
  "parse_digits acc [] = Some acc"
| "parse_digits acc (c # cs) =
     (case digit_value c of None \<Rightarrow> None | Some d \<Rightarrow> parse_digits (10 * acc + d) cs)"

definition parse_nat :: "string \<Rightarrow> nat option" where
  "parse_nat s = (if s = [] then None else parse_digits 0 s)"

definition parse_time :: "string \<Rightarrow> real option" where
  "parse_time s =
     (case split_on '':'' s of
        [hh, mm, rest] \<Rightarrow>
          (case split_on '','' rest of
             [ss, mmm] \<Rightarrow>
               (case (parse_nat hh, parse_nat mm, parse_nat ss, parse_nat mmm) of
                  (Some h, Some m, Some sec, Some ms) \<Rightarrow>
                    Some (3600 * real h + 60 * real m + real sec + real ms / 1000)
                | _ \<Rightarrow> None)
           | _ \<Rightarrow> None)
      | _ \<Rightarrow> None)"

lemma timedelta_seconds_25h:
  "timedelta_seconds 90000 = Inr \<lparr>td_days = 1, td_seconds = 3600, td_microseconds = 0\<rparr>"
  by (simp add: timedelta_seconds_def round_half_even_def Let_def)

lemma timedelta_seconds_25h_2s:
  "timedelta_seconds 90002 = Inr \<lparr>td_days = 1, td_seconds = 3602, td_microseconds = 0\<rparr>"
  by (simp add: timedelta_seconds_def round_half_even_def Let_def)

lemma zero_pad_values:
  "zero_pad 2 0 = ''00''" "zero_pad 2 (Suc 0) = ''01''" "zero_pad 2 2 = ''02''" "zero_pad 3 0 = ''000''"
  by code_simp+

lemma format_time_25h: "format_time 90000 = Inr ''01:00:00,000''"
  by (simp add: format_time_def timedelta_seconds_25h Let_def zero_pad_values)

lemma format_time_25h_2s: "format_time 90002 = Inr ''01:00:02,000''"
  by (simp add: format_time_def timedelta_seconds_25h_2s Let_def zero_pad_values)

lemma parse_time_1h: "parse_time ''01:00:00,000'' = Some 3600"
  by code_simp

lemma parse_time_1h_2s: "parse_time ''01:00:02,000'' = Some 3602"
  by code_simp

definition is_digit :: "char \<Rightarrow> bool" where
  "is_digit c = (digit_value c \<noteq> None)"

lemma digit_value_digit_char: "d < 10 \<Longrightarrow> digit_value (digit_char d) = Some d"
  by (simp add: digit_value_def digit_char_def)

lemma is_digit_zero: "is_digit (CHR ''0'')"
  by (simp add: is_digit_def digit_value_def)

lemma digit_value_zero: "digit_value (CHR ''0'') = Some 0"
  by (simp add: digit_value_def)

lemma parse_digits_append:
  "parse_digits acc (xs @ ys) =
     (case parse_digits acc xs of None \<Rightarrow> None | Some a \<Rightarrow> parse_digits a ys)"
  by (induction xs arbitrary: acc) (simp_all split: option.split)

lemma parse_digits_str_nat:
  "parse_digits acc (str_nat n) = Some (acc * 10 ^ length (str_nat n) + n)"
proof (induction n arbitrary: acc rule: str_nat.induct)
  case (1 n)
  show ?case
  proof (cases "n < 10")
    case True
    then show ?thesis
      by (subst (1 2) str_nat.simps) (simp add: digit_value_digit_char)
  next
    case False
    have m: "n mod 10 < 10" by simp
    from False "1.IH" [of acc] show ?thesis
      by (subst (1 2) str_nat.simps)
         (simp add: parse_digits_append digit_value_digit_char [OF m] algebra_simps)
  qed
qed

lemma parse_digits_zeros: "parse_digits 0 (replicate k (CHR ''0'') @ s) = parse_digits 0 s"
  by (induction k) (simp_all add: digit_value_zero)

lemma str_nat_nonempty: "str_nat n \<noteq> []"
  by (subst str_nat.simps) simp

lemma parse_nat_zero_pad: "parse_nat (zero_pad w n) = Some n"
  by (simp add: parse_nat_def zero_pad_def parse_digits_zeros parse_digits_str_nat str_nat_nonempty)

lemma str_nat_digits: "c \<in> set (str_nat n) \<Longrightarrow> is_digit c"
proof (induction n rule: str_nat.induct)
  case (1 n)
  have m: "n mod 10 < 10" by simp
  from "1.prems" "1.IH" show ?case
    by (subst (asm) str_nat.simps)
       (auto simp: is_digit_def digit_value_digit_char [OF m] digit_value_digit_char split: if_splits)
qed

lemma zero_pad_digits: "c \<in> set (zero_pad w n) \<Longrightarrow> is_digit c"
  by (auto simp: zero_pad_def is_digit_zero str_nat_digits)

lemma split_acc_single:
  "c \<notin> set a \<Longrightarrow> split_acc [c] cur (a @ c # rest) = (rev cur @ a) # split_acc [c] [] rest"
  by (induction a arbitrary: cur) auto

lemma split_acc_none:
  "c \<notin> set a \<Longrightarrow> split_acc [c] cur a = [rev cur @ a]"
  by (induction a arbitrary: cur) auto

lemma not_digit: "\<not> is_digit (CHR '':'')" "\<not> is_digit (CHR '','')"
  by (simp_all add: is_digit_def digit_value_def)

lemma parse_time_stamp:
  assumes "\<forall>c\<in>set hh. is_digit c" "\<forall>c\<in>set mm. is_digit c" "\<forall>c\<in>set ss. is_digit c"
    "\<forall>c\<in>set mmm. is_digit c"
    and "parse_nat hh = Some h" "parse_nat mm = Some m" "parse_nat ss = Some sec"
    "parse_nat mmm = Some ms"
  shows "parse_time (hh @ '':'' @ mm @ '':'' @ ss @ '','' @ mmm)
           = Some (3600 * real h + 60 * real m + real sec + real ms / 1000)"
proof -
  have c1: "CHR '':'' \<notin> set hh" "CHR '':'' \<notin> set mm" "CHR '':'' \<notin> set (ss @ '','' @ mmm)"
    "CHR '','' \<notin> set ss" "CHR '','' \<notin> set mmm"
    using assms(1-4) not_digit by (auto simp: is_digit_def digit_value_def)
  have s1: "split_on '':'' (hh @ '':'' @ mm @ '':'' @ ss @ '','' @ mmm) = [hh, mm, ss @ '','' @ mmm]"
    using c1(1,2,3) by (simp add: split_on_def split_acc_single split_acc_none del: split_acc.simps)
  have s2: "split_on '','' (ss @ CHR '','' # mmm) = [ss, mmm]"
    using c1(4,5) by (simp add: split_on_def split_acc_single split_acc_none del: split_acc.simps)
  show ?thesis
    unfolding parse_time_def s1 by (simp add: s2 assms(5-8))
qed


lemma round_half_even_bounds:
  "real_of_int (round_half_even x) \<le> x + 1 / 2 \<and> x - 1 / 2 \<le> real_of_int (round_half_even x)"
  unfolding round_half_even_def by (auto; linarith)

lemma seconds_of_day:
  fixes s :: int
  assumes "0 \<le> s"
  shows "3600 * real (nat (s div 3600)) + 60 * real (nat (s mod 3600 div 60))
           + real (nat (s mod 3600 mod 60)) = real_of_int s"
proof -
  have a: "0 \<le> s div 3600" "0 \<le> s mod 3600 div 60" "0 \<le> s mod 3600 mod 60"
    using assms by (simp_all add: pos_imp_zdiv_nonneg_iff)
  have "s = 3600 * (s div 3600) + s mod 3600" by simp
  moreover have "s mod 3600 = 60 * (s mod 3600 div 60) + s mod 3600 mod 60" by simp
  ultimately have e: "3600 * (s div 3600) + 60 * (s mod 3600 div 60) + s mod 3600 mod 60 = s"
    by linarith
  have "real_of_int (3600 * (s div 3600) + 60 * (s mod 3600 div 60) + s mod 3600 mod 60)
      = real_of_int s"
    using e by (rule arg_cong)
  then have x: "3600 * real_of_int (s div 3600) + 60 * real_of_int (s mod 3600 div 60)
      + real_of_int (s mod 3600 mod 60) = real_of_int s"
    by (simp only: of_int_add of_int_mult of_int_numeral)
  from x a show ?thesis by simp
qed



lemma milliseconds_split:
  fixes us :: int
  shows "1000 * (us div 1000000) + us mod 1000000 div 1000 = us div 1000"
proof -
  have a: "us div 1000000 = us div 1000 div 1000"
    using zdiv_zmult2_eq [of 1000 us 1000] by simp
  have b: "us mod 1000000 = 1000 * (us div 1000 mod 1000) + us mod 1000"
    using zmod_zmult2_eq [of 1000 us 1000] by simp
  have c: "(1000 * (us div 1000 mod 1000) + us mod 1000) div 1000 = us div 1000 mod 1000"
    by simp
  show ?thesis unfolding a b c by simp
qed

lemma milliseconds_floor:
  fixes us :: int
  shows "1000 * real_of_int (us div 1000) \<le> real_of_int us
       \<and> real_of_int us \<le> 1000 * real_of_int (us div 1000) + 999"
proof -
  have "us = 1000 * (us div 1000) + us mod 1000" by simp
  moreover have "0 \<le> us mod 1000" "us mod 1000 \<le> 999" by simp_all
  ultimately have "1000 * (us div 1000) \<le> us" "us \<le> 1000 * (us div 1000) + 999"
    by linarith+
  then have "real_of_int (1000 * (us div 1000)) \<le> real_of_int us"
    "real_of_int us \<le> real_of_int (1000 * (us div 1000) + 999)"
    by (simp_all only: of_int_le_iff)
  then show ?thesis by simp
qed


text \<open>
  Within a day the timestamps do read back: for a time from 0 up to the last
  microsecond before 86400 s, the timestamp written is read back to a time less than
  a millisecond from the original.
\<close>

lemma format_time_round_trip:
  assumes "0 \<le> t" and "t * 1000000 < 86400000000 - 1 / 2"
  shows "\<exists>s r. format_time t = Inr s \<and> parse_time s = Some r \<and> \<bar>r - t\<bar> < 1 / 1000"
proof -
  define us where "us = round_half_even (t * 1000000)"
  define sec where "sec = us div 1000000"
  define ms where "ms = us mod 1000000 div 1000"
  from round_half_even_bounds [of "t * 1000000"]
  have b: "real_of_int us \<le> t * 1000000 + 1 / 2" "t * 1000000 - 1 / 2 \<le> real_of_int us"
    by (simp_all add: us_def)
  from b(2) assms(1) have "- 1 < real_of_int us" by linarith
  then have us0: "0 \<le> us" by linarith
  from b(1) assms(2) have "real_of_int us < 86400000000" by linarith
  then have us1: "us < 86400000000" by linarith
  from us0 us1 have d: "us div 86400000000 = 0" "us mod 86400000000 = us" by simp_all
  have td: "timedelta_seconds t
      = Inr \<lparr>td_days = 0, td_seconds = sec, td_microseconds = us mod 1000000\<rparr>"
    unfolding timedelta_seconds_def Let_def us_def [symmetric] d sec_def by simp
  have sec0: "0 \<le> sec" using us0 by (simp add: sec_def pos_imp_zdiv_nonneg_iff)
  have ms0: "0 \<le> ms" by (simp add: ms_def pos_imp_zdiv_nonneg_iff)
  let ?hh = "zero_pad 2 (nat (sec div 3600))"
  let ?mm = "zero_pad 2 (nat (sec mod 3600 div 60))"
  let ?ss = "zero_pad 2 (nat (sec mod 3600 mod 60))"
  let ?mmm = "zero_pad 3 (nat ms)"
  let ?r = "3600 * real (nat (sec div 3600)) + 60 * real (nat (sec mod 3600 div 60))
      + real (nat (sec mod 3600 mod 60)) + real (nat ms) / 1000"
  have f: "format_time t = Inr (?hh @ '':'' @ ?mm @ '':'' @ ?ss @ '','' @ ?mmm)"
    unfolding format_time_def td by (simp add: Let_def ms_def)
  have p: "parse_time (?hh @ '':'' @ ?mm @ '':'' @ ?ss @ '','' @ ?mmm) = Some ?r"
    by (rule parse_time_stamp) (auto simp: zero_pad_digits parse_nat_zero_pad)
  have "1000 * sec + ms = us div 1000"
    unfolding sec_def ms_def by (rule milliseconds_split)
  then have "real_of_int (1000 * sec + ms) = real_of_int (us div 1000)"
    by (rule arg_cong)
  then have k: "1000 * real_of_int sec + real_of_int ms = real_of_int (us div 1000)"
    by (simp only: of_int_add of_int_mult of_int_numeral)
  have "?r = real_of_int sec + real_of_int ms / 1000"
    using seconds_of_day [OF sec0] ms0 by simp
  also have "\<dots> = real_of_int (us div 1000) / 1000"
    using k by (simp add: field_simps)
  finally have r: "?r = real_of_int (us div 1000) / 1000" .
  have "\<bar>real_of_int (us div 1000) / 1000 - t\<bar> < 1 / 1000"
    using milliseconds_floor [of us] b by (simp add: abs_less_iff field_simps)
  then have "\<bar>?r - t\<bar> < 1 / 1000" by (simp only: r)
  with f p show ?thesis by blast
qed

text \<open>
  C6 on the code. A caption from 90000 s to 90002 s (25 hours into the programme) is
  written with the timestamps \<open>01:00:00,000\<close> and \<open>01:00:02,000\<close>: the day held by the
  \<^verbatim>\<open>timedelta\<close> is not printed. Read back, the timestamps give 3600 s and 3602 s, a
  day away from the original times.
\<close>

theorem write_srt_wraps_after_a_day:
  "write_srt [\<lparr>start_time = 90000, end_time = 90002, subtitle_text = ''late''\<rparr>]
     = Inr (''1'' @ [newline] @ ''01:00:00,000 --> 01:00:02,000'' @ [newline]
            @ ''late'' @ [newline, newline]) \<and>
   format_time 90000 = Inr ''01:00:00,000'' \<and> parse_time ''01:00:00,000'' = Some 3600 \<and>
   format_time 90002 = Inr ''01:00:02,000'' \<and> parse_time ''01:00:02,000'' = Some 3602"
proof -
  have "str_nat (Suc 0) = ''1''" by code_simp
  then show ?thesis
    by (simp add: write_srt_def format_time_25h format_time_25h_2s parse_time_1h parse_time_1h_2s)
qed

end
